theory Spec2Isabelle
  imports Complex_Main "HOL-Library.Word"
begin

section \<open>Constants (Constants.py)\<close>

text \<open>
  Python integers are unbounded and are modelled as \<open>int\<close>; the bytes of a datagram
  are 8-bit words. Clock readings (\<open>time.time()\<close>) are modelled as exact reals.
\<close>

type_synonym byte = "8 word"

definition MAGIC_COOKIE :: int where
  "MAGIC_COOKIE = 0xabcddcba"

definition MSG_TYPE_OFFER :: int where
  "MSG_TYPE_OFFER = 0x2"

definition MSG_TYPE_REQUEST :: int where
  "MSG_TYPE_REQUEST = 0x3"

definition MSG_TYPE_PAYLOAD :: int where
  "MSG_TYPE_PAYLOAD = 0x4"

definition UDP_TRANSFER_TIMEOUT :: real where
  "UDP_TRANSFER_TIMEOUT = 1.0"

definition TCP_RECEIVE_BUFFER_SIZE :: int where
  "TCP_RECEIVE_BUFFER_SIZE = 4096"

definition UDP_PAYLOAD_SIZE :: int where
  "UDP_PAYLOAD_SIZE = 1024"

section \<open>The struct module: big-endian fixed layouts\<close>

text \<open>
  \<open>struct.pack\<close> raises \<open>struct.error\<close> when a value does not fit its field, and
  \<open>struct.unpack\<close> raises it when the buffer's length differs from
  \<open>struct.calcsize\<close> of the format. Both are branches of the model.
\<close>

datatype py_exception =
  StructError | UnicodeDecodeError | ValueError | OSError | ZeroDivisionError

text \<open>The \<open>k\<close> bytes of a non-negative integer, most significant first.\<close>

fun be_bytes :: "nat \<Rightarrow> int \<Rightarrow> byte list" where
  "be_bytes 0 v = []"
| "be_bytes (Suc k) v = be_bytes k (v div 256) @ [word_of_int (v mod 256)]"

definition be_int :: "byte list \<Rightarrow> int" where
  "be_int bs = foldl (\<lambda>acc b. acc * 256 + uint b) 0 bs"

definition fits :: "nat \<Rightarrow> int \<Rightarrow> bool" where
  "fits k v = (0 \<le> v \<and> v < 256 ^ k)"

text \<open>\<open>OFFER_STRUCT_FORMAT = "!LBHH"\<close>: 4 + 1 + 2 + 2 = 9 bytes.\<close>

definition OFFER_SIZE :: nat where
  "OFFER_SIZE = 9"

definition pack_offer :: "int \<Rightarrow> int \<Rightarrow> int \<Rightarrow> int \<Rightarrow> py_exception + byte list" where
  "pack_offer cookie msg_type udp_port tcp_port =
     (if fits 4 cookie \<and> fits 1 msg_type \<and> fits 2 udp_port \<and> fits 2 tcp_port
      then Inr (be_bytes 4 cookie @ be_bytes 1 msg_type @ be_bytes 2 udp_port @ be_bytes 2 tcp_port)
      else Inl StructError)"

definition unpack_offer :: "byte list \<Rightarrow> py_exception + (int \<times> int \<times> int \<times> int)" where
  "unpack_offer data =
     (if length data \<noteq> OFFER_SIZE then Inl StructError
      else Inr (be_int (take 4 data), be_int (take 1 (drop 4 data)),
                be_int (take 2 (drop 5 data)), be_int (take 2 (drop 7 data))))"

text \<open>\<open>REQUEST_STRUCT_FORMAT = "!LBQ"\<close>: 4 + 1 + 8 = 13 bytes.\<close>

definition REQUEST_SIZE :: nat where
  "REQUEST_SIZE = 13"

definition pack_request :: "int \<Rightarrow> int \<Rightarrow> int \<Rightarrow> py_exception + byte list" where
  "pack_request cookie msg_type file_size =
     (if fits 4 cookie \<and> fits 1 msg_type \<and> fits 8 file_size
      then Inr (be_bytes 4 cookie @ be_bytes 1 msg_type @ be_bytes 8 file_size)
      else Inl StructError)"

definition unpack_request :: "byte list \<Rightarrow> py_exception + (int \<times> int \<times> int)" where
  "unpack_request data =
     (if length data \<noteq> REQUEST_SIZE then Inl StructError
      else Inr (be_int (take 4 data), be_int (take 1 (drop 4 data)),
                be_int (take 8 (drop 5 data))))"

text \<open>\<open>PAYLOAD_STRUCT_FORMAT = "!LBQQ"\<close>: 4 + 1 + 8 + 8 = 21 bytes.\<close>

definition PAYLOAD_SIZE :: nat where
  "PAYLOAD_SIZE = 21"

definition pack_payload :: "int \<Rightarrow> int \<Rightarrow> int \<Rightarrow> int \<Rightarrow> py_exception + byte list" where
  "pack_payload cookie msg_type total_seg current_seg =
     (if fits 4 cookie \<and> fits 1 msg_type \<and> fits 8 total_seg \<and> fits 8 current_seg
      then Inr (be_bytes 4 cookie @ be_bytes 1 msg_type @ be_bytes 8 total_seg @ be_bytes 8 current_seg)
      else Inl StructError)"

definition unpack_payload :: "byte list \<Rightarrow> py_exception + (int \<times> int \<times> int \<times> int)" where
  "unpack_payload data =
     (if length data \<noteq> PAYLOAD_SIZE then Inl StructError
      else Inr (be_int (take 4 data), be_int (take 1 (drop 4 data)),
                be_int (take 8 (drop 5 data)), be_int (take 8 (drop 13 data))))"

section \<open>What a socket call can do\<close>

text \<open>
  A receive call returns a datagram with its sender, times out (\<open>socket.timeout\<close>),
  raises some other exception, or is interrupted from the keyboard
  (\<open>KeyboardInterrupt\<close> is not an \<open>Exception\<close> in Python). An address is the
  pair of host and port that \<open>recvfrom\<close> returns.
\<close>

type_synonym addr = "string \<times> int"

datatype recv_result =
    Datagram "byte list" addr
  | SocketTimeout
  | RaisedException
  | RaisedKeyboardInterrupt

text \<open>A network on which no send call ever fails.\<close>

definition every_send_succeeds :: "'a \<Rightarrow> bool" where
  [simp]: "every_send_succeeds k = True"

section \<open>Server: UDP requests and the segmenter (NetworkSpeedTest\_Server.py)\<close>

datatype udp_request_outcome =
    SpawnTransfer addr int    \<comment> \<open>a thread running \<open>handle_udp_transfer(addr, file_size)\<close>\<close>
  | NoAction                  \<comment> \<open>nothing done, nothing printed\<close>
  | LogRequestError           \<comment> \<open>\<open>print("UDP request error: ...")\<close>\<close>
  | Propagated                \<comment> \<open>the exception leaves the loop\<close>

text \<open>One iteration of the loop of \<open>listen_udp_requests\<close>.\<close>

definition listen_udp_requests_step :: "recv_result \<Rightarrow> udp_request_outcome" where
  "listen_udp_requests_step r =
     (case r of
        Datagram data addr \<Rightarrow>
          (if length data \<ge> REQUEST_SIZE
           then (case unpack_request data of
                   Inl e \<Rightarrow> LogRequestError
                 | Inr (magic_cookie_val, msg_type_val, file_size) \<Rightarrow>
                     if magic_cookie_val = MAGIC_COOKIE \<and> msg_type_val = MSG_TYPE_REQUEST
                     then SpawnTransfer addr file_size
                     else NoAction)
           else NoAction)
      | SocketTimeout \<Rightarrow> NoAction
      | RaisedException \<Rightarrow> LogRequestError
      | RaisedKeyboardInterrupt \<Rightarrow> Propagated)"

text \<open>The loop over the receive calls made while \<open>self.running\<close> holds.\<close>

fun listen_udp_requests :: "recv_result list \<Rightarrow> udp_request_outcome list" where
  "listen_udp_requests [] = []"
| "listen_udp_requests (r # rs) =
     (case listen_udp_requests_step r of
        Propagated \<Rightarrow> [Propagated]
      | out \<Rightarrow> out # listen_udp_requests rs)"

datatype udp_send_status = AllSent | SendFailed | PackRaised

definition total_segments_of :: "int \<Rightarrow> int" where
  "total_segments_of file_size =
     (file_size div UDP_PAYLOAD_SIZE) + (if file_size mod UDP_PAYLOAD_SIZE \<noteq> 0 then 1 else 0)"

text \<open>The datagram of segment \<open>i\<close> (0-based): the header, then \<open>b"Y" * data_this_segment\<close>.\<close>

definition build_segment :: "int \<Rightarrow> int \<Rightarrow> int \<Rightarrow> py_exception + byte list" where
  "build_segment file_size total_segments i =
     (let current_seg = i + 1 in
      case pack_payload MAGIC_COOKIE MSG_TYPE_PAYLOAD total_segments current_seg of
        Inl e \<Rightarrow> Inl e
      | Inr header \<Rightarrow>
          let data_this_segment = min UDP_PAYLOAD_SIZE (file_size - (i * UDP_PAYLOAD_SIZE));
              dummy_data = replicate (nat data_this_segment) (0x59 :: byte)
          in Inr (header @ dummy_data))"

text \<open>
  The \<open>for\<close> loop of the server's \<open>handle_udp_transfer\<close> over \<open>range(total_segments)\<close>.
  \<open>sendto_ok i\<close> tells whether the \<open>sendto\<close> of segment \<open>i\<close> succeeds; a failure breaks
  the loop. The result is the list of datagrams sent, in order.
\<close>

fun send_segments ::
  "(int \<Rightarrow> bool) \<Rightarrow> int \<Rightarrow> int \<Rightarrow> int list \<Rightarrow> byte list list \<times> udp_send_status" where
  "send_segments sendto_ok file_size total_segments [] = ([], AllSent)"
| "send_segments sendto_ok file_size total_segments (i # rest) =
     (case build_segment file_size total_segments i of
        Inl e \<Rightarrow> ([], PackRaised)
      | Inr dgram \<Rightarrow>
          if sendto_ok i
          then (case send_segments sendto_ok file_size total_segments rest of
                  (sent, st) \<Rightarrow> (dgram # sent, st))
          else ([], SendFailed))"

definition server_handle_udp_transfer ::
  "(int \<Rightarrow> bool) \<Rightarrow> int \<Rightarrow> byte list list \<times> udp_send_status" where
  "server_handle_udp_transfer sendto_ok file_size =
     (let total_segments = total_segments_of file_size
      in send_segments sendto_ok file_size total_segments [0..total_segments - 1])"

text \<open>The payload of a datagram as the client reads it: \<open>len(data[21:])\<close>.\<close>

definition payload_len :: "byte list \<Rightarrow> int" where
  "payload_len data = int (length (drop PAYLOAD_SIZE data))"

section \<open>Server: the TCP path\<close>

datatype log_line =
    Log_requested int         \<comment> \<open>\<open>TCP: client requested ... bytes.\<close>\<close>
  | Log_invalid_file_size     \<comment> \<open>\<open>Invalid file size: ...\<close>\<close>
  | Log_tcp_client_error      \<comment> \<open>\<open>TCP client error: ...\<close>\<close>
  | Log_send_error            \<comment> \<open>\<open>Error sending TCP data: ...\<close>\<close>

text \<open>
  \<open>send_tcp_data\<close>: \<open>sendall_ok k\<close> tells whether the \<open>k\<close>-th call of \<open>sendall\<close>
  succeeds. The result is the list of chunks written and what was printed.
\<close>

function send_tcp_data_loop ::
  "(nat \<Rightarrow> bool) \<Rightarrow> nat \<Rightarrow> int \<Rightarrow> int \<Rightarrow> byte list list \<times> log_line list" where
  "send_tcp_data_loop sendall_ok k bytes_sent size' =
     (if bytes_sent < size'
      then (let to_send = min 4096 (size' - bytes_sent) in
            if sendall_ok k
            then (case send_tcp_data_loop sendall_ok (Suc k) (bytes_sent + to_send) size' of
                    (ws, lg) \<Rightarrow> (replicate (nat to_send) (0x58 :: byte) # ws, lg))
            else ([], [Log_send_error]))
      else ([], []))"
  by pat_completeness auto
termination
  by (relation "measure (\<lambda>(ok, k, bytes_sent, size'). nat (size' - bytes_sent))") auto

definition send_tcp_data :: "(nat \<Rightarrow> bool) \<Rightarrow> int \<Rightarrow> byte list list \<times> log_line list" where
  "send_tcp_data sendall_ok size' = send_tcp_data_loop sendall_ok 0 0 size'"

text \<open>\<open>recv(1)\<close> on the accepted connection: one byte, \<open>b""\<close> (peer closed), or an exception.\<close>

datatype tcp_recv = TcpByte byte | TcpClosed | TcpRaised

datatype read_result = GotLine "byte list" | PeerClosed | ReadRaised | Blocked

definition endswith_newline :: "byte list \<Rightarrow> bool" where
  "endswith_newline data = (data \<noteq> [] \<and> last data = 0x0A)"

text \<open>
  The loop \<open>while not data.endswith(b"\n")\<close>. When the connection delivers nothing
  more, \<open>recv\<close> blocks: \<open>Blocked\<close>.
\<close>

fun read_request_line :: "byte list \<Rightarrow> tcp_recv list \<Rightarrow> read_result" where
  "read_request_line data rs =
     (if endswith_newline data then GotLine data
      else (case rs of
              [] \<Rightarrow> Blocked
            | TcpByte b # rest \<Rightarrow> read_request_line (data @ [b]) rest
            | TcpClosed # rest \<Rightarrow> PeerClosed
            | TcpRaised # rest \<Rightarrow> ReadRaised))"

text \<open>\<open>bytes.strip()\<close>: ASCII whitespace off both ends.\<close>

definition is_space :: "byte \<Rightarrow> bool" where
  "is_space b = (b \<in> set [0x09, 0x0A, 0x0B, 0x0C, 0x0D, 0x20])"

definition strip :: "byte list \<Rightarrow> byte list" where
  "strip data = rev (dropWhile is_space (rev (dropWhile is_space data)))"

record tcp_connection =
  incoming :: "tcp_recv list"
  sendall_ok :: "nat \<Rightarrow> bool"

record tcp_handler_result =
  writes :: "byte list list"
  printed :: "log_line list"
  sock_closed :: bool

text \<open>
  \<open>handle_tcp_client\<close>. The builtin \<open>int(data.decode())\<close> is a parameter \<open>py_int\<close>
  (\<open>py_int_decode\<close> below): it raises \<open>UnicodeDecodeError\<close> (from \<open>decode\<close>, which is
  called before the inner \<open>try\<close>, so that the outer handler catches it),
  \<open>ValueError\<close> (from \<open>int\<close>, caught by the inner handler), or returns the integer.
  Every path runs the \<open>finally\<close> clause, which closes the socket; \<open>None\<close> is the
  handler blocked in \<open>recv\<close> for good.
\<close>

definition handle_tcp_client ::
  "(byte list \<Rightarrow> py_exception + int) \<Rightarrow> tcp_connection \<Rightarrow> tcp_handler_result option" where
  "handle_tcp_client py_int client_sock =
     (case read_request_line [] (incoming client_sock) of
        Blocked \<Rightarrow> None
      | PeerClosed \<Rightarrow> Some \<lparr>writes = [], printed = [], sock_closed = True\<rparr>
      | ReadRaised \<Rightarrow> Some \<lparr>writes = [], printed = [Log_tcp_client_error], sock_closed = True\<rparr>
      | GotLine data \<Rightarrow>
          (case py_int (strip data) of
             Inl ValueError \<Rightarrow>
               Some \<lparr>writes = [], printed = [Log_invalid_file_size], sock_closed = True\<rparr>
           | Inl e \<Rightarrow>
               Some \<lparr>writes = [], printed = [Log_tcp_client_error], sock_closed = True\<rparr>
           | Inr file_size \<Rightarrow>
               (case send_tcp_data (sendall_ok client_sock) file_size of
                  (ws, lg) \<Rightarrow>
                    Some \<lparr>writes = ws, printed = Log_requested file_size # lg, sock_closed = True\<rparr>)))"

text \<open>
  \<open>listen_tcp\<close>: each accepted connection gets a thread of its own running
  \<open>handle_tcp_client\<close> on that connection alone; a timeout or an error of \<open>accept\<close>
  leaves the loop running. The result lists what each handler does.
\<close>

datatype accept_result = Accepted tcp_connection | AcceptTimeout | AcceptRaised

fun listen_tcp ::
  "(byte list \<Rightarrow> py_exception + int) \<Rightarrow> accept_result list \<Rightarrow> tcp_handler_result option list" where
  "listen_tcp py_int [] = []"
| "listen_tcp py_int (Accepted client_sock # rest) =
     handle_tcp_client py_int client_sock # listen_tcp py_int rest"
| "listen_tcp py_int (AcceptTimeout # rest) = listen_tcp py_int rest"
| "listen_tcp py_int (AcceptRaised # rest) = listen_tcp py_int rest"

subsection \<open>The builtins \<open>bytes.decode\<close> and \<open>int\<close> on a request line\<close>

text \<open>
  \<open>bytes.decode()\<close> raises \<open>UnicodeDecodeError\<close> unless the bytes are well-formed
  UTF-8: no stray continuation byte, no truncated sequence, no overlong form, no
  surrogate, nothing above U+10FFFF.
\<close>

definition is_cont :: "byte \<Rightarrow> bool" where
  "is_cont b = (0x80 \<le> b \<and> b \<le> 0xBF)"

fun valid_utf8 :: "byte list \<Rightarrow> bool" where
  "valid_utf8 [] = True"
| "valid_utf8 (b # bs) =
     (if b < 0x80 then valid_utf8 bs
      else if 0xC2 \<le> b \<and> b \<le> 0xDF then
        (case bs of
           c1 # r \<Rightarrow> is_cont c1 \<and> valid_utf8 r
         | _ \<Rightarrow> False)
      else if 0xE0 \<le> b \<and> b \<le> 0xEF then
        (case bs of
           c1 # c2 # r \<Rightarrow>
             (if b = 0xE0 then 0xA0 else 0x80) \<le> c1
             \<and> c1 \<le> (if b = 0xED then 0x9F else 0xBF)
             \<and> is_cont c2 \<and> valid_utf8 r
         | _ \<Rightarrow> False)
      else if 0xF0 \<le> b \<and> b \<le> 0xF4 then
        (case bs of
           c1 # c2 # c3 # r \<Rightarrow>
             (if b = 0xF0 then 0x90 else 0x80) \<le> c1
             \<and> c1 \<le> (if b = 0xF4 then 0x8F else 0xBF)
             \<and> is_cont c2 \<and> is_cont c3 \<and> valid_utf8 r
         | _ \<Rightarrow> False)
      else False)"

text \<open>
  \<open>int(s)\<close> on ASCII text, base 10: whitespace off both ends, an optional sign, then
  decimal digits, where single underscores may stand between two digits; anything
  else raises \<open>ValueError\<close>. \<open>scan_digits acc prev_underscore\<close> reads the digits.
\<close>

definition is_digit :: "byte \<Rightarrow> bool" where
  "is_digit b = (0x30 \<le> b \<and> b \<le> 0x39)"

fun scan_digits :: "int \<Rightarrow> bool \<Rightarrow> byte list \<Rightarrow> int option" where
  "scan_digits acc prev_underscore [] = (if prev_underscore then None else Some acc)"
| "scan_digits acc prev_underscore (b # bs) =
     (if is_digit b then scan_digits (acc * 10 + (uint b - 48)) False bs
      else if b = 0x5F \<and> \<not> prev_underscore then scan_digits acc True bs
      else None)"

definition int_of_ascii :: "byte list \<Rightarrow> py_exception + int" where
  "int_of_ascii s =
     (let t = strip s;
          negative = (t \<noteq> [] \<and> hd t = 0x2D);
          ds = (if t \<noteq> [] \<and> (hd t = 0x2D \<or> hd t = 0x2B) then tl t else t)
      in if ds = [] \<or> hd ds = 0x5F then Inl ValueError
         else (case scan_digits 0 False ds of
                 None \<Rightarrow> Inl ValueError
               | Some v \<Rightarrow> Inr (if negative then - v else v)))"

text \<open>
  \<open>int(data.decode())\<close>, the \<open>py_int\<close> of the handler. Two readings are left open
  (\<open>undefined\<close>), for they are not fixed by the program: text outside ASCII, where
  \<open>int\<close> consults the Unicode tables of the interpreter (digits and spaces of other
  scripts), and more than 4300 digits, which newer interpreters refuse with
  \<open>ValueError\<close> and older ones convert.
\<close>

definition py_int_decode :: "byte list \<Rightarrow> py_exception + int" where
  "py_int_decode data =
     (if \<not> valid_utf8 data then Inl UnicodeDecodeError
      else if list_ex (\<lambda>b. 0x80 \<le> b) data \<or> length (filter is_digit data) > 4300
      then undefined
      else int_of_ascii data)"

section \<open>Client: discovery (NetworkSpeedTest\_Client.py)\<close>

datatype listen_exit =
    ReturnOffer string int int   \<comment> \<open>\<open>return (addr[0], srv_udp_port, srv_tcp_port)\<close>\<close>
  | ReturnNoneDeadline           \<comment> \<open>\<open>return None\<close> after the 10 seconds\<close>
  | ReturnNoneError              \<comment> \<open>\<open>return None\<close> from \<open>except Exception\<close>\<close>
  | SysExit                      \<comment> \<open>\<open>sys.exit(0)\<close>\<close>

text \<open>
  \<open>listen_for_offer\<close>. Each iteration reads the clock (\<open>now\<close>), then calls
  \<open>recvfrom\<close>; the trace lists both for every iteration. \<open>None\<close> is the loop still
  running when the trace ends.
\<close>

fun listen_for_offer :: "real \<Rightarrow> (real \<times> recv_result) list \<Rightarrow> listen_exit option" where
  "listen_for_offer start_time [] = None"
| "listen_for_offer start_time ((now, r) # rest) =
     (if now - start_time > 10 then Some ReturnNoneDeadline
      else (case r of
              Datagram data addr \<Rightarrow>
                (if length data \<ge> OFFER_SIZE
                 then (case unpack_offer data of
                         Inl e \<Rightarrow> Some ReturnNoneError
                       | Inr (mc_val, msg_val, srv_udp_port, srv_tcp_port) \<Rightarrow>
                           if mc_val = MAGIC_COOKIE \<and> msg_val = MSG_TYPE_OFFER
                           then Some (ReturnOffer (fst addr) srv_udp_port srv_tcp_port)
                           else listen_for_offer start_time rest)
                 else listen_for_offer start_time rest)
            | SocketTimeout \<Rightarrow> listen_for_offer start_time rest
            | RaisedKeyboardInterrupt \<Rightarrow> Some SysExit
            | RaisedException \<Rightarrow> Some ReturnNoneError))"

section \<open>Client: measuring a transfer\<close>

text \<open>
  Python's division \<open>x / y\<close> raises \<open>ZeroDivisionError\<close> when \<open>y\<close> is zero. The
  quotient is the exact one here; Python rounds it to a float.
\<close>

definition py_truediv :: "real \<Rightarrow> real \<Rightarrow> py_exception + real" where
  "py_truediv x y = (if y = 0 then Inl ZeroDivisionError else Inr (x / y))"

text \<open>\<open>duration = max(end_time - start_time, 1e-6)\<close> and \<open>speed_bps = (received * 8) / duration\<close>.\<close>

definition transfer_duration :: "real \<Rightarrow> real \<Rightarrow> real" where
  "transfer_duration start_time end_time = max (end_time - start_time) (1 / 1000000)"

definition speed_bps :: "int \<Rightarrow> real \<Rightarrow> py_exception + real" where
  "speed_bps received duration = py_truediv (real_of_int received * 8) duration"

text \<open>
  The receive loop of \<open>handle_tcp_transfer\<close>: \<open>recv\<close> returns a chunk (empty when the
  server closed) or raises; an exception ends the transfer with what was received.
  A trace that ends with the loop still waiting is read as the \<open>recv\<close> timing out.
\<close>

datatype tcp_chunk = Chunk "byte list" | ChunkRaised

fun tcp_receive_loop :: "int \<Rightarrow> int \<Rightarrow> tcp_chunk list \<Rightarrow> int" where
  "tcp_receive_loop received file_size [] = received"
| "tcp_receive_loop received file_size (c # rest) =
     (if received < file_size
      then (case c of
              Chunk chunk \<Rightarrow>
                if chunk = [] then received
                else tcp_receive_loop (received + int (length chunk)) file_size rest
            | ChunkRaised \<Rightarrow> received)
      else received)"

definition handle_tcp_transfer ::
  "int \<Rightarrow> real \<Rightarrow> tcp_chunk list \<Rightarrow> real \<Rightarrow> py_exception + (real \<times> real)" where
  "handle_tcp_transfer file_size start_time chunks end_time =
     (let received = tcp_receive_loop 0 file_size chunks;
          duration = transfer_duration start_time end_time
      in case speed_bps received duration of
           Inl e \<Rightarrow> Inl e
         | Inr speed_bps_val \<Rightarrow> Inr (duration, speed_bps_val))"

record udp_counters =
  total_bytes :: int
  total_segments :: int
  segments_received :: int
  last_data_time :: real

datatype udp_loop_exit =
    Break udp_counters       \<comment> \<open>the \<open>break\<close> of the timeout handler\<close>
  | Receiving udp_counters   \<comment> \<open>the trace ended with the loop still running\<close>
  | LoopRaised               \<comment> \<open>an exception other than \<open>socket.timeout\<close> leaves the loop\<close>

text \<open>
  The receive loop of the client's \<open>handle_udp_transfer\<close>. An event is what
  \<open>recvfrom(1500)\<close> did and the reading of the clock right after; the loop reads the
  clock only after a valid segment and in the timeout handler.
\<close>

fun udp_receive_loop :: "udp_counters \<Rightarrow> (recv_result \<times> real) list \<Rightarrow> udp_loop_exit" where
  "udp_receive_loop st [] = Receiving st"
| "udp_receive_loop st ((r, now) # rest) =
     (case r of
        Datagram data sender \<Rightarrow>
          (if length data < PAYLOAD_SIZE then udp_receive_loop st rest
           else (case unpack_payload (take PAYLOAD_SIZE data) of
                   Inl e \<Rightarrow> LoopRaised
                 | Inr (mc, mt, total_seg, current_seg) \<Rightarrow>
                     if mc \<noteq> MAGIC_COOKIE \<or> mt \<noteq> MSG_TYPE_PAYLOAD
                     then udp_receive_loop st rest
                     else udp_receive_loop
                            \<lparr>total_bytes = total_bytes st + int (length (drop PAYLOAD_SIZE data)),
                             total_segments = total_seg,
                             segments_received = segments_received st + 1,
                             last_data_time = now\<rparr> rest))
      | SocketTimeout \<Rightarrow>
          (if now - last_data_time st > UDP_TRANSFER_TIMEOUT then Break st
           else udp_receive_loop st rest)
      | RaisedException \<Rightarrow> LoopRaised
      | RaisedKeyboardInterrupt \<Rightarrow> LoopRaised)"

text \<open>
  \<open>success_rate = 0.0\<close>, then, \<open>if total_segments > 0\<close>,
  \<open>success_rate = (segments_received / total_segments) * 100\<close>.
\<close>

definition success_rate_of :: "int \<Rightarrow> int \<Rightarrow> py_exception + real" where
  "success_rate_of received_count total_count =
     (if total_count > 0
      then (case py_truediv (real_of_int received_count) (real_of_int total_count) of
              Inl e \<Rightarrow> Inl e
            | Inr q \<Rightarrow> Inr (q * 100))
      else Inr 0.0)"

record udp_report =
  duration :: real
  speed :: real
  success_rate :: real

text \<open>
  What the client's \<open>handle_udp_transfer\<close> computes after its loop, and prints; an
  exception raised by one of the two divisions would leave the function before the
  \<open>print\<close>.
\<close>

definition udp_report_of :: "udp_counters \<Rightarrow> real \<Rightarrow> real \<Rightarrow> py_exception + udp_report" where
  "udp_report_of st start_time end_time =
     (let d = transfer_duration start_time end_time
      in case speed_bps (total_bytes st) d of
           Inl e \<Rightarrow> Inl e
         | Inr speed_bps_val \<Rightarrow>
             (case success_rate_of (segments_received st) (total_segments st) of
                Inl e \<Rightarrow> Inl e
              | Inr rate \<Rightarrow>
                  Inr \<lparr>duration = d, speed = speed_bps_val, success_rate = rate\<rparr>))"

text \<open>
  The client's \<open>handle_udp_transfer\<close>: \<open>start_time\<close>, the request, the clock after
  sending it (\<open>send_time\<close>), the loop, \<open>end_time\<close>, and the report. \<open>None\<close> stands for
  a run that prints no report: an exception left the function, or the trace ended
  with the loop still running.
\<close>

definition client_handle_udp_transfer ::
  "int \<Rightarrow> real \<Rightarrow> real \<Rightarrow> (recv_result \<times> real) list \<Rightarrow> real \<Rightarrow> udp_report option" where
  "client_handle_udp_transfer file_size start_time send_time events end_time =
     (case pack_request MAGIC_COOKIE MSG_TYPE_REQUEST file_size of
        Inl e \<Rightarrow> None
      | Inr request_packet \<Rightarrow>
          (case udp_receive_loop
                  \<lparr>total_bytes = 0, total_segments = 0, segments_received = 0,
                   last_data_time = send_time\<rparr> events of
             Break st \<Rightarrow>
               (case udp_report_of st start_time end_time of
                  Inl e \<Rightarrow> None
                | Inr report \<Rightarrow> Some report)
           | Receiving st \<Rightarrow> None
           | LoopRaised \<Rightarrow> None))"

section \<open>Properties of the codec\<close>

lemma length_be_bytes [simp]: "length (be_bytes k v) = k"
  by (induction k arbitrary: v) simp_all

lemma be_int_Nil [simp]: "be_int [] = 0"
  by (simp add: be_int_def)

lemma be_int_snoc [simp]: "be_int (bs @ [b]) = be_int bs * 256 + uint b"
  by (simp add: be_int_def)

lemma uint_byte_mod: "uint (word_of_int (v mod 256) :: byte) = v mod 256"
  by (simp add: uint_word_of_int)

lemma be_int_be_bytes: "0 \<le> v \<Longrightarrow> v < 256 ^ k \<Longrightarrow> be_int (be_bytes k v) = v"
proof (induction k arbitrary: v)
  case 0
  then show ?case by simp
next
  case (Suc k)
  have "0 \<le> v div 256" using Suc.prems(1) by simp
  moreover have "v div 256 < 256 ^ k"
    using Suc.prems(2) by simp
  ultimately have "be_int (be_bytes k (v div 256)) = v div 256"
    by (rule Suc.IH)
  then show ?case by (simp add: uint_byte_mod)
qed

lemma be_int_fits: "fits k v \<Longrightarrow> be_int (be_bytes k v) = v"
  by (simp add: fits_def be_int_be_bytes)

lemma offer_roundtrip:
  "pack_offer cookie msg_type udp_port tcp_port = Inr bs
     \<Longrightarrow> length bs = 9 \<and> unpack_offer bs = Inr (cookie, msg_type, udp_port, tcp_port)"
  by (auto simp: pack_offer_def unpack_offer_def OFFER_SIZE_def be_int_fits
      simp del: be_bytes.simps split: if_splits)

lemma request_roundtrip:
  "pack_request cookie msg_type file_size = Inr bs
     \<Longrightarrow> length bs = 13 \<and> unpack_request bs = Inr (cookie, msg_type, file_size)"
  by (auto simp: pack_request_def unpack_request_def REQUEST_SIZE_def be_int_fits
      simp del: be_bytes.simps split: if_splits)

lemma payload_roundtrip:
  "pack_payload cookie msg_type total_seg current_seg = Inr hdr
     \<Longrightarrow> length hdr = 21
       \<and> unpack_payload (take PAYLOAD_SIZE (hdr @ payload))
           = Inr (cookie, msg_type, total_seg, current_seg)
       \<and> drop PAYLOAD_SIZE (hdr @ payload) = payload"
  by (auto simp: pack_payload_def unpack_payload_def PAYLOAD_SIZE_def be_int_fits
      simp del: be_bytes.simps split: if_splits)

section \<open>Wire format: encoding then decoding\<close>

text \<open>
  Claim C4. For every Offer, Request and PayloadSegment whose fields fit their widths
  (u32 cookie, u8 type, u16 ports, u64 size and segment numbers), \<open>struct.pack\<close>
  succeeds, the header has 9, 13 and 21 bytes respectively, and \<open>struct.unpack\<close> of the
  packed bytes returns the original field values. For a PayloadSegment the client
  unpacks the first 21 bytes of the datagram and takes the rest as the payload, which
  is the payload that was appended.
\<close>

theorem codec_roundtrip:
  assumes "0 \<le> cookie" "cookie < 2 ^ 32"
    and "0 \<le> offer_type" "offer_type < 2 ^ 8" "0 \<le> udp_port" "udp_port < 2 ^ 16"
      "0 \<le> tcp_port" "tcp_port < 2 ^ 16"
    and "0 \<le> request_type" "request_type < 2 ^ 8" "0 \<le> file_size" "file_size < 2 ^ 64"
    and "0 \<le> payload_type" "payload_type < 2 ^ 8" "0 \<le> total_seg" "total_seg < 2 ^ 64"
      "0 \<le> current_seg" "current_seg < 2 ^ 64"
  shows "(\<exists>bs. pack_offer cookie offer_type udp_port tcp_port = Inr bs \<and> length bs = 9 \<and>
            unpack_offer bs = Inr (cookie, offer_type, udp_port, tcp_port))
       \<and> (\<exists>bs. pack_request cookie request_type file_size = Inr bs \<and> length bs = 13 \<and>
            unpack_request bs = Inr (cookie, request_type, file_size))
       \<and> (\<exists>hdr. pack_payload cookie payload_type total_seg current_seg = Inr hdr \<and>
            length hdr = 21 \<and>
            unpack_payload (take PAYLOAD_SIZE (hdr @ payload))
              = Inr (cookie, payload_type, total_seg, current_seg) \<and>
            drop PAYLOAD_SIZE (hdr @ payload) = payload)"
proof -
  have f: "fits 4 cookie" "fits 1 offer_type" "fits 2 udp_port" "fits 2 tcp_port"
    "fits 1 request_type" "fits 8 file_size" "fits 1 payload_type" "fits 8 total_seg"
    "fits 8 current_seg"
    using assms by (simp_all add: fits_def)
  have offer: "\<exists>bs. pack_offer cookie offer_type udp_port tcp_port = Inr bs \<and> length bs = 9 \<and>
            unpack_offer bs = Inr (cookie, offer_type, udp_port, tcp_port)"
    using f offer_roundtrip [of cookie offer_type udp_port tcp_port]
    by (simp add: pack_offer_def)
  have request: "\<exists>bs. pack_request cookie request_type file_size = Inr bs \<and> length bs = 13 \<and>
            unpack_request bs = Inr (cookie, request_type, file_size)"
    using f request_roundtrip [of cookie request_type file_size]
    by (simp add: pack_request_def)
  have payload: "\<exists>hdr. pack_payload cookie payload_type total_seg current_seg = Inr hdr \<and>
            length hdr = 21 \<and>
            unpack_payload (take PAYLOAD_SIZE (hdr @ payload))
              = Inr (cookie, payload_type, total_seg, current_seg) \<and>
            drop PAYLOAD_SIZE (hdr @ payload) = payload"
    using f payload_roundtrip [of cookie payload_type total_seg current_seg _ payload]
    by (simp add: pack_payload_def)
  from offer request payload show ?thesis by blast
qed

theorem codec_roundtrip_witness:
  "(\<exists>bs. pack_offer 0xabcddcba 2 13117 8080 = Inr bs \<and> length bs = 9 \<and>
            unpack_offer bs = Inr (0xabcddcba, 2, 13117, 8080))
       \<and> (\<exists>bs. pack_request 0xabcddcba 3 5000 = Inr bs \<and> length bs = 13 \<and>
            unpack_request bs = Inr (0xabcddcba, 3, 5000))
       \<and> (\<exists>hdr. pack_payload 0xabcddcba 4 3 2 = Inr hdr \<and> length hdr = 21 \<and>
            unpack_payload (take PAYLOAD_SIZE (hdr @ [0x59, 0x59])) = Inr (0xabcddcba, 4, 3, 2) \<and>
            drop PAYLOAD_SIZE (hdr @ [0x59, 0x59]) = [0x59, 0x59])"
  using codec_roundtrip [of "0xabcddcba" 2 13117 8080 3 5000 4 3 2 "[0x59, 0x59]"] by simp

section \<open>Server: the UDP segmenter\<close>

lemma total_segments_bounds:
  "(total_segments_of file_size - 1) * 1024 < file_size"
  "file_size \<le> total_segments_of file_size * 1024"
proof -
  define q where "q = file_size div 1024"
  define r where "r = file_size mod 1024"
  have e: "file_size = 1024 * q + r" by (simp add: q_def r_def)
  have r: "0 \<le> r" "r < 1024" by (simp_all add: r_def)
  have t: "total_segments_of file_size = q + (if r \<noteq> 0 then 1 else 0)"
    by (simp add: total_segments_of_def UDP_PAYLOAD_SIZE_def q_def r_def)
  show "(total_segments_of file_size - 1) * 1024 < file_size"
    using e r t by (cases "r = 0") simp_all
  show "file_size \<le> total_segments_of file_size * 1024"
    using e r t by (cases "r = 0") simp_all
qed

lemma total_segments_ceiling:
  "total_segments_of file_size = \<lceil>real_of_int file_size / real_of_int UDP_PAYLOAD_SIZE\<rceil>"
proof -
  let ?t = "total_segments_of file_size"
  have "\<lceil>real_of_int file_size / 1024\<rceil> = ?t"
  proof (rule ceiling_unique)
    have "real_of_int ((?t - 1) * 1024) < real_of_int file_size"
      using total_segments_bounds(1) [of file_size] by (simp only: of_int_less_iff)
    then show "real_of_int ?t - 1 < real_of_int file_size / 1024" by simp
    have "real_of_int file_size \<le> real_of_int (?t * 1024)"
      using total_segments_bounds(2) [of file_size] by (simp only: of_int_le_iff)
    then show "real_of_int file_size / 1024 \<le> real_of_int ?t" by simp
  qed
  then show ?thesis by (simp add: UDP_PAYLOAD_SIZE_def)
qed

lemma total_segments_pos: "0 < file_size \<Longrightarrow> 0 < total_segments_of file_size"
  using total_segments_bounds(2) [of file_size] by (cases "0 < total_segments_of file_size") auto

lemma total_segments_le:
  assumes "0 < file_size"
  shows "total_segments_of file_size \<le> file_size"
proof -
  have p: "0 < total_segments_of file_size"
    using assms by (rule total_segments_pos)
  have "total_segments_of file_size * 1024 - 1024 < file_size"
    using total_segments_bounds(1) [of file_size] by (simp add: algebra_simps)
  with p show ?thesis by linarith
qed

lemma build_segment_Inr:
  assumes "fits 8 tot" "0 \<le> i" "i < tot"
  shows "\<exists>d. build_segment file_size tot i = Inr d
           \<and> unpack_payload (take PAYLOAD_SIZE d) = Inr (MAGIC_COOKIE, MSG_TYPE_PAYLOAD, tot, i + 1)
           \<and> payload_len d = int (nat (min UDP_PAYLOAD_SIZE (file_size - i * UDP_PAYLOAD_SIZE)))"
proof -
  have f: "fits 4 MAGIC_COOKIE" "fits 1 MSG_TYPE_PAYLOAD" "fits 8 (i + 1)"
    using assms by (simp_all add: fits_def MAGIC_COOKIE_def MSG_TYPE_PAYLOAD_def)
  show ?thesis
    using f assms(1)
    by (simp add: build_segment_def pack_payload_def unpack_payload_def PAYLOAD_SIZE_def
        payload_len_def be_int_fits Let_def del: be_bytes.simps)
qed

lemma send_segments_all:
  assumes "\<forall>i. sendto_ok i"
    and "\<forall>i\<in>set is. \<exists>d. build_segment file_size tot i = Inr d"
  shows "send_segments sendto_ok file_size tot is
           = (map (\<lambda>i. projr (build_segment file_size tot i)) is, AllSent)"
  using assms(2)
proof (induction "is")
  case Nil
  then show ?case by simp
next
  case (Cons i rest)
  then obtain d where d: "build_segment file_size tot i = Inr d" by auto
  have ok: "sendto_ok i" using assms(1) by simp
  from Cons have "send_segments sendto_ok file_size tot rest
           = (map (\<lambda>i. projr (build_segment file_size tot i)) rest, AllSent)" by simp
  then show ?case using d ok by simp
qed

lemma sum_list_const_int:
  "(\<forall>x\<in>set xs. f x = (c::int)) \<Longrightarrow> sum_list (map f xs) = c * int (length xs)"
  by (induction xs) (simp_all add: algebra_simps)

lemma sum_chunks:
  assumes "0 \<le> n" "n * 1024 < file_size" "file_size \<le> (n + 1) * 1024"
  shows "sum_list (map (\<lambda>i. min 1024 (file_size - i * 1024)) [0..n]) = file_size"
proof -
  have split: "[0..n] = [0..n - 1] @ [n]"
    using assms(1) by (simp add: upto_rec2)
  have "\<forall>i\<in>set [0..n - 1]. min 1024 (file_size - i * 1024) = 1024"
    using assms(2) by auto
  then have "sum_list (map (\<lambda>i. min 1024 (file_size - i * 1024)) [0..n - 1])
               = 1024 * int (length [0..n - 1])"
    by (rule sum_list_const_int)
  also have "\<dots> = 1024 * n" using assms(1) by simp
  finally have front:
    "sum_list (map (\<lambda>i. min 1024 (file_size - i * 1024)) [0..n - 1]) = 1024 * n" .
  have "min 1024 (file_size - n * 1024) = file_size - n * 1024"
    using assms(3) by simp
  then show ?thesis using front by (simp add: split)
qed


lemma segment_nth:
  assumes "0 < file_size" "file_size < 2 ^ 64" "0 \<le> i" "i < total_segments_of file_size"
  shows "\<exists>d. build_segment file_size (total_segments_of file_size) i = Inr d
           \<and> unpack_payload (take PAYLOAD_SIZE d)
               = Inr (MAGIC_COOKIE, MSG_TYPE_PAYLOAD, total_segments_of file_size, i + 1)
           \<and> payload_len d = min UDP_PAYLOAD_SIZE (file_size - i * UDP_PAYLOAD_SIZE)"
proof -
  let ?t = "total_segments_of file_size"
  have "?t \<le> file_size" using assms(1) by (rule total_segments_le)
  then have fit: "fits 8 ?t"
    using assms(2) total_segments_pos [OF assms(1)] by (simp add: fits_def)
  have "i * 1024 \<le> (?t - 1) * 1024" using assms(4) by simp
  then have pos: "0 < file_size - i * 1024"
    using total_segments_bounds(1) [of file_size] by linarith
  from build_segment_Inr [OF fit assms(3) assms(4), of file_size]
  obtain d where d: "build_segment file_size ?t i = Inr d"
    "unpack_payload (take PAYLOAD_SIZE d) = Inr (MAGIC_COOKIE, MSG_TYPE_PAYLOAD, ?t, i + 1)"
    "payload_len d = int (nat (min UDP_PAYLOAD_SIZE (file_size - i * UDP_PAYLOAD_SIZE)))"
    by blast
  have "payload_len d = min UDP_PAYLOAD_SIZE (file_size - i * UDP_PAYLOAD_SIZE)"
    using d(3) pos by (simp add: UDP_PAYLOAD_SIZE_def)
  with d(1,2) show ?thesis by blast
qed

text \<open>
  Claim C1. For every requested \<open>file_size > 0\<close> (below \<open>2^64\<close>, the range of the
  Request's u64 field) and the chunk size 1024, when no \<open>sendto\<close> fails, the server's
  \<open>handle_udp_transfer\<close> computes \<open>total_segments = ceil(file_size / 1024)\<close> and sends
  exactly that many datagrams; datagram \<open>k\<close> (0-based) carries the header
  (cookie, PAYLOAD, total_segments, k + 1) and \<open>min(1024, file_size - k * 1024)\<close> payload
  bytes; the payload lengths sum to \<open>file_size\<close>; and the last payload has
  \<open>file_size - (total_segments - 1) * 1024\<close> bytes, which is 1024 when 1024 divides
  \<open>file_size\<close> and \<open>file_size mod 1024\<close> otherwise.
\<close>

theorem udp_segmenter_lengths:
  assumes "0 < file_size" "file_size < 2 ^ 64" "\<forall>i. sendto_ok i"
  shows "total_segments_of file_size = \<lceil>real_of_int file_size / real_of_int UDP_PAYLOAD_SIZE\<rceil>
       \<and> (\<exists>sent. server_handle_udp_transfer sendto_ok file_size = (sent, AllSent)
            \<and> int (length sent) = total_segments_of file_size
            \<and> (\<forall>k < length sent.
                  unpack_payload (take PAYLOAD_SIZE (sent ! k))
                    = Inr (MAGIC_COOKIE, MSG_TYPE_PAYLOAD, total_segments_of file_size, int k + 1)
                  \<and> payload_len (sent ! k)
                    = min UDP_PAYLOAD_SIZE (file_size - int k * UDP_PAYLOAD_SIZE))
            \<and> sum_list (map payload_len sent) = file_size
            \<and> payload_len (last sent)
                = file_size - (total_segments_of file_size - 1) * UDP_PAYLOAD_SIZE
            \<and> (file_size mod UDP_PAYLOAD_SIZE = 0 \<longrightarrow> payload_len (last sent) = UDP_PAYLOAD_SIZE)
            \<and> (file_size mod UDP_PAYLOAD_SIZE \<noteq> 0
                 \<longrightarrow> payload_len (last sent) = file_size mod UDP_PAYLOAD_SIZE))"
proof -
  let ?t = "total_segments_of file_size"
  let ?g = "\<lambda>i. projr (build_segment file_size ?t i)"
  let ?sent = "map ?g [0..?t - 1]"
  have tpos: "0 < ?t" using assms(1) by (rule total_segments_pos)
  have seg: "unpack_payload (take PAYLOAD_SIZE (?g i))
               = Inr (MAGIC_COOKIE, MSG_TYPE_PAYLOAD, ?t, i + 1)
             \<and> payload_len (?g i) = min UDP_PAYLOAD_SIZE (file_size - i * UDP_PAYLOAD_SIZE)
             \<and> build_segment file_size ?t i = Inr (?g i)"
    if "0 \<le> i" "i < ?t" for i
    using segment_nth [OF assms(1) assms(2) that] by auto
  have "\<forall>i\<in>set [0..?t - 1]. \<exists>d. build_segment file_size ?t i = Inr d"
  proof
    fix i assume "i \<in> set [0..?t - 1]"
    then have "0 \<le> i" "i < ?t" by auto
    from seg [OF this] show "\<exists>d. build_segment file_size ?t i = Inr d" by blast
  qed
  then have run: "server_handle_udp_transfer sendto_ok file_size = (?sent, AllSent)"
    using send_segments_all [OF assms(3)] by (simp add: server_handle_udp_transfer_def Let_def)
  have len: "int (length ?sent) = ?t" using tpos by simp
  have nth: "?sent ! k = ?g (int k)" if "k < length ?sent" for k
    using that by simp
  have each: "\<forall>k < length ?sent.
                  unpack_payload (take PAYLOAD_SIZE (?sent ! k))
                    = Inr (MAGIC_COOKIE, MSG_TYPE_PAYLOAD, ?t, int k + 1)
                  \<and> payload_len (?sent ! k)
                    = min UDP_PAYLOAD_SIZE (file_size - int k * UDP_PAYLOAD_SIZE)"
  proof (intro allI impI)
    fix k assume k: "k < length ?sent"
    then have "int k < ?t" using len by linarith
    then show "unpack_payload (take PAYLOAD_SIZE (?sent ! k))
                    = Inr (MAGIC_COOKIE, MSG_TYPE_PAYLOAD, ?t, int k + 1)
                  \<and> payload_len (?sent ! k)
                    = min UDP_PAYLOAD_SIZE (file_size - int k * UDP_PAYLOAD_SIZE)"
      using seg [of "int k"] nth [OF k] by simp
  qed
  have "map payload_len ?sent = map (\<lambda>i. payload_len (?g i)) [0..?t - 1]"
    by (simp add: comp_def)
  also have "\<dots> = map (\<lambda>i. min 1024 (file_size - i * 1024)) [0..?t - 1]"
  proof (rule map_cong [OF refl])
    fix i assume "i \<in> set [0..?t - 1]"
    then have "0 \<le> i" "i < ?t" by auto
    from seg [OF this] show "payload_len (?g i) = min 1024 (file_size - i * 1024)"
      by (simp add: UDP_PAYLOAD_SIZE_def)
  qed
  finally have "map payload_len ?sent
                  = map (\<lambda>i. min 1024 (file_size - i * 1024)) [0..?t - 1]" .
  then have "sum_list (map payload_len ?sent)
               = sum_list (map (\<lambda>i. min 1024 (file_size - i * 1024)) [0..?t - 1])"
    by (rule arg_cong)
  also have "\<dots> = file_size"
    using sum_chunks [of "?t - 1" file_size] tpos total_segments_bounds [of file_size]
    by simp
  finally have total: "sum_list (map payload_len ?sent) = file_size" .
  have "last ?sent = ?g (?t - 1)"
    using tpos by (simp add: last_map upto_rec2)
  then have lastlen: "payload_len (last ?sent)
                        = min UDP_PAYLOAD_SIZE (file_size - (?t - 1) * UDP_PAYLOAD_SIZE)"
    using seg [of "?t - 1"] tpos by simp
  have last1: "payload_len (last ?sent) = file_size - (?t - 1) * UDP_PAYLOAD_SIZE"
    using lastlen total_segments_bounds(2) [of file_size] by (simp add: UDP_PAYLOAD_SIZE_def)
  have last2: "file_size mod UDP_PAYLOAD_SIZE = 0 \<longrightarrow> payload_len (last ?sent) = UDP_PAYLOAD_SIZE"
    using last1 by (auto simp: total_segments_of_def UDP_PAYLOAD_SIZE_def)
  have last3: "file_size mod UDP_PAYLOAD_SIZE \<noteq> 0
                 \<longrightarrow> payload_len (last ?sent) = file_size mod UDP_PAYLOAD_SIZE"
    using last1 by (auto simp: total_segments_of_def UDP_PAYLOAD_SIZE_def minus_div_mult_eq_mod)
  show ?thesis
    by (intro conjI exI [of _ ?sent])
      (fact total_segments_ceiling run len each total last1 last2 last3)+
qed


theorem udp_segmenter_lengths_witness:
  "total_segments_of 2500 = \<lceil>real_of_int 2500 / real_of_int UDP_PAYLOAD_SIZE\<rceil>
       \<and> (\<exists>sent. server_handle_udp_transfer every_send_succeeds 2500 = (sent, AllSent)
            \<and> int (length sent) = total_segments_of 2500
            \<and> (\<forall>k < length sent.
                  unpack_payload (take PAYLOAD_SIZE (sent ! k))
                    = Inr (MAGIC_COOKIE, MSG_TYPE_PAYLOAD, total_segments_of 2500, int k + 1)
                  \<and> payload_len (sent ! k)
                    = min UDP_PAYLOAD_SIZE (2500 - int k * UDP_PAYLOAD_SIZE))
            \<and> sum_list (map payload_len sent) = 2500
            \<and> payload_len (last sent)
                = 2500 - (total_segments_of 2500 - 1) * UDP_PAYLOAD_SIZE
            \<and> (2500 mod UDP_PAYLOAD_SIZE = 0 \<longrightarrow> payload_len (last sent) = UDP_PAYLOAD_SIZE)
            \<and> (2500 mod UDP_PAYLOAD_SIZE \<noteq> 0
                 \<longrightarrow> payload_len (last sent) = 2500 mod UDP_PAYLOAD_SIZE))"
  by (rule udp_segmenter_lengths) simp_all

lemma scenario_B_segments:
  "total_segments_of 2500 = 3"
  "map payload_len (fst (server_handle_udp_transfer every_send_succeeds 2500)) = [1024, 1024, 452]"
  by (simp_all add: server_handle_udp_transfer_def total_segments_of_def UDP_PAYLOAD_SIZE_def
      upto.simps build_segment_def pack_payload_def fits_def MAGIC_COOKIE_def
      MSG_TYPE_PAYLOAD_def payload_len_def PAYLOAD_SIZE_def Let_def del: be_bytes.simps)

section \<open>Server: streaming over TCP\<close>

lemma send_loop_chunks:
  "send_tcp_data_loop ok k bs n = (ws, lg) \<Longrightarrow> j < length ws
     \<Longrightarrow> ws ! j = replicate (nat (min 4096 (n - (bs + 4096 * int j)))) (0x58 :: byte)"
proof (induction ok k bs n arbitrary: ws lg j rule: send_tcp_data_loop.induct)
  case (1 ok k bs n)
  show ?case
  proof (cases "bs < n \<and> ok k")
    case False
    then have "ws = []" using "1.prems"(1) by (auto simp: Let_def split: if_splits)
    then show ?thesis using "1.prems"(2) by simp
  next
    case True
    obtain ws' lg' where rec:
      "send_tcp_data_loop ok (Suc k) (bs + min 4096 (n - bs)) n = (ws', lg')"
      by (cases "send_tcp_data_loop ok (Suc k) (bs + min 4096 (n - bs)) n")
    have ws: "ws = replicate (nat (min 4096 (n - bs))) 0x58 # ws'"
      using "1.prems"(1) True rec by (simp add: Let_def)
    show ?thesis
    proof (cases j)
      case 0
      then show ?thesis using ws by simp
    next
      case (Suc j')
      then have j': "j' < length ws'" using "1.prems"(2) ws by simp
      then have nonempty: "ws' \<noteq> []" by auto
      have full: "min 4096 (n - bs) = 4096"
      proof (rule ccontr)
        assume "min 4096 (n - bs) \<noteq> 4096"
        then have "bs + min 4096 (n - bs) = n" by simp
        then have "ws' = []" using rec by simp
        with nonempty show False by simp
      qed
      have "ws' ! j' = replicate (nat (min 4096 (n - (bs + min 4096 (n - bs) + 4096 * int j')))) 0x58"
        using "1.IH" [OF _ refl _ rec j'] True by simp
      then show ?thesis using ws Suc full by (simp add: algebra_simps)
    qed
  qed
qed

lemma send_loop_total:
  "send_tcp_data_loop ok k bs n = (ws, lg) \<Longrightarrow> bs \<le> n
     \<Longrightarrow> (lg = [] \<and> bs + int (length (concat ws)) = n)
       \<or> (lg = [Log_send_error] \<and> bs + int (length (concat ws)) < n \<and> (\<exists>j. \<not> ok j))"
proof (induction ok k bs n arbitrary: ws lg rule: send_tcp_data_loop.induct)
  case (1 ok k bs n)
  show ?case
  proof (cases "bs < n")
    case False
    then show ?thesis using "1.prems" by simp
  next
    case lt: True
    show ?thesis
    proof (cases "ok k")
      case False
      then show ?thesis using "1.prems" lt by (auto simp: Let_def)
    next
      case True
      obtain ws' lg' where rec:
        "send_tcp_data_loop ok (Suc k) (bs + min 4096 (n - bs)) n = (ws', lg')"
        by (cases "send_tcp_data_loop ok (Suc k) (bs + min 4096 (n - bs)) n")
      have ws: "ws = replicate (nat (min 4096 (n - bs))) 0x58 # ws'" and lg: "lg = lg'"
        using "1.prems"(1) True lt rec by (simp_all add: Let_def)
      have le: "bs + min 4096 (n - bs) \<le> n" using lt by simp
      have ih: "(lg' = [] \<and> bs + min 4096 (n - bs) + int (length (concat ws')) = n)
       \<or> (lg' = [Log_send_error] \<and> bs + min 4096 (n - bs) + int (length (concat ws')) < n
             \<and> (\<exists>j. \<not> ok j))"
        using "1.IH" [OF lt refl True rec le] .
      have "int (length (concat ws)) = min 4096 (n - bs) + int (length (concat ws'))"
        using ws lt by simp
      then show ?thesis using ih lg by auto
    qed
  qed
qed

lemma send_tcp_data_nonpositive: "n \<le> 0 \<Longrightarrow> send_tcp_data ok n = ([], [])"
  by (simp add: send_tcp_data_def)

text \<open>
  Claim C5. For every requested size \<open>n\<close>, a number of bytes and so \<open>n \<ge> 0\<close>,
  \<open>send_tcp_data\<close> writes chunks of filler bytes (\<open>X\<close>), the \<open>j\<close>-th of
  \<open>min(4096, n - 4096 * j)\<close> bytes, that is \<open>min(4096, bytesRemaining)\<close>; when no
  \<open>sendall\<close> fails the bytes written are exactly \<open>n\<close>; fewer than \<open>n\<close> bytes are
  written only when a \<open>sendall\<close> failed (which is logged). For \<open>n = 5000\<close> there are
  exactly two writes, of 4096 and 904 bytes. (The loop does not start for \<open>n \<le> 0\<close>.)
\<close>

theorem send_tcp_data_streams:
  assumes "send_tcp_data ok n = (ws, lg)"
  shows "(0 \<le> n \<longrightarrow>
            (\<forall>j < length ws. ws ! j = replicate (nat (min 4096 (n - 4096 * int j))) 0x58)
          \<and> ((\<forall>k. ok k) \<longrightarrow> lg = [] \<and> int (length (concat ws)) = n)
          \<and> (int (length (concat ws)) \<noteq> n \<longrightarrow>
                lg = [Log_send_error] \<and> (\<exists>k. \<not> ok k)
                \<and> int (length (concat ws)) < n))
       \<and> (n \<le> 0 \<longrightarrow> ws = [] \<and> lg = [])
       \<and> map length (fst (send_tcp_data every_send_succeeds 5000)) = [4096, 904]"
proof -
  have run: "send_tcp_data_loop ok 0 0 n = (ws, lg)"
    using assms by (simp add: send_tcp_data_def)
  have chunks: "\<forall>j < length ws. ws ! j = replicate (nat (min 4096 (n - 4096 * int j))) 0x58"
    using send_loop_chunks [OF run] by simp
  have total: "(lg = [] \<and> int (length (concat ws)) = n)
       \<or> (lg = [Log_send_error] \<and> int (length (concat ws)) < n \<and> (\<exists>j. \<not> ok j))"
    if "0 \<le> n"
    using send_loop_total [OF run that] by simp
  have nonneg: "0 \<le> n \<longrightarrow>
            (\<forall>j < length ws. ws ! j = replicate (nat (min 4096 (n - 4096 * int j))) 0x58)
          \<and> ((\<forall>k. ok k) \<longrightarrow> lg = [] \<and> int (length (concat ws)) = n)
          \<and> (int (length (concat ws)) \<noteq> n \<longrightarrow>
                lg = [Log_send_error] \<and> (\<exists>k. \<not> ok k)
                \<and> int (length (concat ws)) < n)"
    using chunks total by blast
  have nonpos: "n \<le> 0 \<longrightarrow> ws = [] \<and> lg = []"
    using assms send_tcp_data_nonpositive [of n ok] by auto
  have ex: "map length (fst (send_tcp_data every_send_succeeds 5000)) = [4096, 904]"
    by (simp add: send_tcp_data_def)
  from nonneg nonpos ex show ?thesis by (intro conjI)
qed

theorem send_tcp_data_streams_witness:
  "int (length (concat (fst (send_tcp_data every_send_succeeds 5000)))) = 5000
   \<and> snd (send_tcp_data every_send_succeeds 5000) = []
   \<and> map length (fst (send_tcp_data every_send_succeeds 5000)) = [4096, 904]"
  using send_tcp_data_streams [of every_send_succeeds 5000 "fst (send_tcp_data every_send_succeeds 5000)"
      "snd (send_tcp_data every_send_succeeds 5000)"]
  by simp

section \<open>Client: what a transfer reports\<close>

lemma transfer_duration_pos: "0 < transfer_duration start_time end_time"
  by (simp add: transfer_duration_def max_def)

lemma speed_bps_Inr:
  "speed_bps received (transfer_duration start_time end_time)
     = Inr (real_of_int received * 8 / transfer_duration start_time end_time)"
  using transfer_duration_pos [of start_time end_time]
  by (simp add: speed_bps_def py_truediv_def)

lemma success_rate_of_cases:
  "success_rate_of received_count total_count
     = Inr (if 0 < total_count
            then real_of_int received_count / real_of_int total_count * 100 else 0)"
  by (simp add: success_rate_of_def py_truediv_def)

lemma udp_report_of_Inr:
  "udp_report_of st start_time end_time
     = Inr \<lparr>duration = transfer_duration start_time end_time,
            speed = real_of_int (total_bytes st) * 8 / transfer_duration start_time end_time,
            success_rate =
              (if 0 < total_segments st
               then real_of_int (segments_received st) / real_of_int (total_segments st) * 100
               else 0)\<rparr>"
  by (simp add: udp_report_of_def Let_def speed_bps_Inr success_rate_of_cases)

lemma be_int_nonneg: "0 \<le> be_int bs"
  by (induction bs rule: rev_induct) simp_all

lemma unpack_payload_nonneg:
  "unpack_payload data = Inr (mc, mt, total_seg, current_seg) \<Longrightarrow> 0 \<le> total_seg"
  by (auto simp: unpack_payload_def be_int_nonneg split: if_splits)

lemma udp_loop_total_segments_nonneg:
  "udp_receive_loop st events = Break st' \<Longrightarrow> 0 \<le> total_segments st
     \<Longrightarrow> 0 \<le> total_segments st'"
proof (induction events arbitrary: st)
  case Nil
  then show ?case by simp
next
  case (Cons e events)
  obtain r now where e: "e = (r, now)" by (cases e)
  show ?case
  proof (cases r)
    case (Datagram data sender)
    show ?thesis
    proof (cases "length data < PAYLOAD_SIZE")
      case True
      then have "udp_receive_loop st events = Break st'"
        using Cons.prems(1) e Datagram by simp
      then show ?thesis using Cons.IH Cons.prems(2) by blast
    next
      case False
      then obtain mc mt total_seg current_seg where
        un: "unpack_payload (take PAYLOAD_SIZE data) = Inr (mc, mt, total_seg, current_seg)"
        by (auto simp: unpack_payload_def)
      show ?thesis
      proof (cases "mc \<noteq> MAGIC_COOKIE \<or> mt \<noteq> MSG_TYPE_PAYLOAD")
        case True
        then have "udp_receive_loop st events = Break st'"
          using Cons.prems(1) e Datagram False un by auto
        then show ?thesis using Cons.IH Cons.prems(2) by blast
      next
        case valid: False
        let ?st = "\<lparr>total_bytes = total_bytes st + int (length (drop PAYLOAD_SIZE data)),
                    total_segments = total_seg,
                    segments_received = segments_received st + 1,
                    last_data_time = now\<rparr>"
        have "udp_receive_loop ?st events = Break st'"
          using Cons.prems(1) e Datagram False un valid by simp
        moreover have "0 \<le> total_segments ?st"
          using unpack_payload_nonneg [OF un] by simp
        ultimately show ?thesis using Cons.IH by blast
      qed
    qed
  next
    case SocketTimeout
    show ?thesis
    proof (cases "now - last_data_time st > UDP_TRANSFER_TIMEOUT")
      case True
      then have "st' = st" using Cons.prems(1) e SocketTimeout by simp
      then show ?thesis using Cons.prems(2) by simp
    next
      case False
      then have "udp_receive_loop st events = Break st'"
        using Cons.prems(1) e SocketTimeout by simp
      then show ?thesis using Cons.IH Cons.prems(2) by blast
    qed
  next
    case RaisedException
    then show ?thesis using Cons.prems(1) e by simp
  next
    case RaisedKeyboardInterrupt
    then show ?thesis using Cons.prems(1) e by simp
  qed
qed

text \<open>
  Claim C6. Every client UDP transfer whose receive loop ends (with the counters
  \<open>st\<close>) prints a report: neither division raises. There \<open>total_segments\<close> is
  positive or zero, and the reported success rate is
  \<open>segments_received / total_segments * 100\<close> when \<open>total_segments > 0\<close> and 0 when
  \<open>total_segments = 0\<close>, where the division, which would raise
  \<open>ZeroDivisionError\<close>, is not reached; 7 segments of 10 give 70.
  The quotient is the exact one, which Python's float division rounds.
\<close>

theorem success_rate_reported:
  assumes "fits 8 file_size"
    and "udp_receive_loop
           \<lparr>total_bytes = 0, total_segments = 0, segments_received = 0,
            last_data_time = send_time\<rparr> events = Break st"
  shows "0 \<le> total_segments st
       \<and> (\<exists>rep. client_handle_udp_transfer file_size start_time send_time events end_time
                   = Some rep
               \<and> (0 < total_segments st \<longrightarrow>
                     success_rate rep
                       = real_of_int (segments_received st) / real_of_int (total_segments st)
                           * 100)
               \<and> (total_segments st = 0 \<longrightarrow> success_rate rep = 0))
       \<and> (0 < total_count \<longrightarrow>
             success_rate_of received_count total_count
               = Inr (real_of_int received_count / real_of_int total_count * 100))
       \<and> success_rate_of received_count 0 = Inr 0
       \<and> py_truediv (real_of_int received_count) (real_of_int 0) = Inl ZeroDivisionError
       \<and> success_rate_of 7 10 = Inr 70"
proof -
  have nonneg: "0 \<le> total_segments st"
    using udp_loop_total_segments_nonneg [OF assms(2)] by simp
  obtain req where req: "pack_request MAGIC_COOKIE MSG_TYPE_REQUEST file_size = Inr req"
    using assms(1)
    by (simp add: pack_request_def fits_def MAGIC_COOKIE_def MSG_TYPE_REQUEST_def)
  let ?rep = "\<lparr>duration = transfer_duration start_time end_time,
            speed = real_of_int (total_bytes st) * 8 / transfer_duration start_time end_time,
            success_rate =
              (if 0 < total_segments st
               then real_of_int (segments_received st) / real_of_int (total_segments st) * 100
               else 0)\<rparr>"
  have run: "client_handle_udp_transfer file_size start_time send_time events end_time
               = Some ?rep"
    using req assms(2) by (simp add: client_handle_udp_transfer_def udp_report_of_Inr)
  have report: "\<exists>rep. client_handle_udp_transfer file_size start_time send_time events end_time
                   = Some rep
               \<and> (0 < total_segments st \<longrightarrow>
                     success_rate rep
                       = real_of_int (segments_received st) / real_of_int (total_segments st)
                           * 100)
               \<and> (total_segments st = 0 \<longrightarrow> success_rate rep = 0)"
    by (rule exI [of _ ?rep]) (simp add: run)
  have pos: "0 < total_count \<longrightarrow>
             success_rate_of received_count total_count
               = Inr (real_of_int received_count / real_of_int total_count * 100)"
    by (simp add: success_rate_of_cases)
  have zero: "success_rate_of received_count 0 = Inr 0"
    by (simp add: success_rate_of_cases)
  have raises: "py_truediv (real_of_int received_count) (real_of_int 0) = Inl ZeroDivisionError"
    by (simp add: py_truediv_def)
  have ex: "success_rate_of 7 10 = Inr 70"
    by (simp add: success_rate_of_cases)
  from nonneg report pos zero raises ex show ?thesis by (intro conjI)
qed

theorem success_rate_reported_witness:
  "fits 8 10240
   \<and> udp_receive_loop
         \<lparr>total_bytes = 0, total_segments = 0, segments_received = 0, last_data_time = 0\<rparr>
         [(Datagram [0xab, 0xcd, 0xdc, 0xba, 0x04, 0, 0, 0, 0, 0, 0, 0, 10,
                      0, 0, 0, 0, 0, 0, 0, 1, 0x59] (''10.0.0.2'', 2000), 0.1),
          (SocketTimeout, 1.3)]
       = Break \<lparr>total_bytes = 1, total_segments = 10, segments_received = 1,
                 last_data_time = 0.1\<rparr>
   \<and> map_option success_rate
         (client_handle_udp_transfer 10240 0 0
            [(Datagram [0xab, 0xcd, 0xdc, 0xba, 0x04, 0, 0, 0, 0, 0, 0, 0, 10,
                         0, 0, 0, 0, 0, 0, 0, 1, 0x59] (''10.0.0.2'', 2000), 0.1),
             (SocketTimeout, 1.3)] 2)
       = Some 10"
proof -
  have size_ok: "fits 8 10240"
    by (simp add: fits_def)
  have loop: "udp_receive_loop
         \<lparr>total_bytes = 0, total_segments = 0, segments_received = 0, last_data_time = 0\<rparr>
         [(Datagram [0xab, 0xcd, 0xdc, 0xba, 0x04, 0, 0, 0, 0, 0, 0, 0, 10,
                      0, 0, 0, 0, 0, 0, 0, 1, 0x59] (''10.0.0.2'', 2000), 0.1),
          (SocketTimeout, 1.3)]
       = Break \<lparr>total_bytes = 1, total_segments = 10, segments_received = 1,
                 last_data_time = 0.1\<rparr>"
    by (simp add: unpack_payload_def PAYLOAD_SIZE_def be_int_def MAGIC_COOKIE_def
        MSG_TYPE_PAYLOAD_def UDP_TRANSFER_TIMEOUT_def)
  from success_rate_reported [OF size_ok loop, of 0 2 10 7]
  show ?thesis using size_ok loop by auto
qed

text \<open>
  Claim C7. For every transfer, TCP or UDP, the client computes the throughput as
  \<open>received * 8 / duration\<close> bits per second, where
  \<open>duration = max(end_time - start_time, 1e-6)\<close> is positive, so that the division is
  defined (it does not raise); 1,000,000 bytes in 2.0 seconds give 4,000,000 bits per
  second.
  Clock readings and quotients are exact reals here, floats in Python.
\<close>

theorem throughput_computed:
  "transfer_duration start_time end_time = max (end_time - start_time) (1 / 1000000)
   \<and> 0 < transfer_duration start_time end_time
   \<and> speed_bps received (transfer_duration start_time end_time)
       = Inr (real_of_int received * 8 / transfer_duration start_time end_time)
   \<and> handle_tcp_transfer file_size start_time chunks end_time
       = Inr (transfer_duration start_time end_time,
              real_of_int (tcp_receive_loop 0 file_size chunks) * 8
                / transfer_duration start_time end_time)
   \<and> (\<exists>rep. udp_report_of st start_time end_time = Inr rep
          \<and> duration rep = transfer_duration start_time end_time
          \<and> speed rep
              = real_of_int (total_bytes st) * 8 / transfer_duration start_time end_time)
   \<and> speed_bps 1000000 (transfer_duration 0 2) = Inr 4000000"
proof -
  have d: "transfer_duration start_time end_time = max (end_time - start_time) (1 / 1000000)"
    by (simp add: transfer_duration_def)
  have tcp: "handle_tcp_transfer file_size start_time chunks end_time
       = Inr (transfer_duration start_time end_time,
              real_of_int (tcp_receive_loop 0 file_size chunks) * 8
                / transfer_duration start_time end_time)"
    by (simp add: handle_tcp_transfer_def Let_def speed_bps_Inr)
  have udp: "\<exists>rep. udp_report_of st start_time end_time = Inr rep
          \<and> duration rep = transfer_duration start_time end_time
          \<and> speed rep
              = real_of_int (total_bytes st) * 8 / transfer_duration start_time end_time"
    by (simp add: udp_report_of_Inr)
  have ex: "speed_bps 1000000 (transfer_duration 0 2) = Inr 4000000"
    by (simp add: transfer_duration_def speed_bps_def py_truediv_def)
  from d transfer_duration_pos [of start_time end_time]
    speed_bps_Inr [of received start_time end_time] tcp udp ex
  show ?thesis by (intro conjI)
qed

lemma udp_loop_valid_segment:
  assumes "pack_payload MAGIC_COOKIE MSG_TYPE_PAYLOAD total_seg current_seg = Inr hdr"
  shows "udp_receive_loop st ((Datagram (hdr @ payload) sender, now) # rest)
           = udp_receive_loop
               \<lparr>total_bytes = total_bytes st + int (length payload),
                total_segments = total_seg,
                segments_received = segments_received st + 1,
                last_data_time = now\<rparr> rest"
proof -
  from payload_roundtrip [OF assms, of payload]
  have len: "length hdr = 21"
    and un: "unpack_payload (take PAYLOAD_SIZE (hdr @ payload))
               = Inr (MAGIC_COOKIE, MSG_TYPE_PAYLOAD, total_seg, current_seg)"
    and dr: "drop PAYLOAD_SIZE (hdr @ payload) = payload"
    by blast+
  have long: "\<not> length (hdr @ payload) < PAYLOAD_SIZE"
    using len by (simp add: PAYLOAD_SIZE_def)
  show ?thesis using long un dr by simp
qed

section \<open>Client: the UDP receive loop\<close>

lemma udp_loop_append:
  "udp_receive_loop st (pre @ es)
     = (case udp_receive_loop st pre of Receiving st' \<Rightarrow> udp_receive_loop st' es
        | Break st' \<Rightarrow> Break st' | LoopRaised \<Rightarrow> LoopRaised)"
proof (induction pre arbitrary: st)
  case Nil
  then show ?case by simp
next
  case (Cons e pre)
  obtain r now where e: "e = (r, now)" by (cases e)
  show ?case
    using Cons.IH unfolding e
    by (cases r) (simp_all split: sum.splits prod.splits)
qed

lemma udp_loop_single_break:
  "udp_receive_loop st [(r, now)] = Break s
     \<Longrightarrow> r = SocketTimeout \<and> s = st \<and> now - last_data_time st > UDP_TRANSFER_TIMEOUT"
  by (cases r) (auto split: sum.splits prod.splits if_splits)

lemma udp_loop_break_split:
  "udp_receive_loop st es = Break st'
     \<Longrightarrow> \<exists>pre now post. es = pre @ (SocketTimeout, now) # post
           \<and> udp_receive_loop st pre = Receiving st'
           \<and> now - last_data_time st' > UDP_TRANSFER_TIMEOUT"
proof (induction es arbitrary: st)
  case Nil
  then show ?case by simp
next
  case (Cons e es)
  obtain r now where e: "e = (r, now)" by (cases e)
  have step: "udp_receive_loop st (e # es)
     = (case udp_receive_loop st [e] of Receiving s \<Rightarrow> udp_receive_loop s es
        | Break s \<Rightarrow> Break s | LoopRaised \<Rightarrow> LoopRaised)"
    using udp_loop_append [of st "[e]" es] by simp
  show ?case
  proof (cases "udp_receive_loop st [e]")
    case (Break s)
    then have "s = st'" using step Cons.prems by simp
    then have "r = SocketTimeout \<and> st' = st \<and> now - last_data_time st > UDP_TRANSFER_TIMEOUT"
      using udp_loop_single_break [of st r now s] Break e by simp
    then have "e # es = [] @ (SocketTimeout, now) # es
           \<and> udp_receive_loop st [] = Receiving st'
           \<and> now - last_data_time st' > UDP_TRANSFER_TIMEOUT"
      using e by simp
    then show ?thesis by blast
  next
    case (Receiving s)
    then have "udp_receive_loop s es = Break st'" using step Cons.prems by simp
    from Cons.IH [OF this] obtain pre now' post where
      p: "es = pre @ (SocketTimeout, now') # post" "udp_receive_loop s pre = Receiving st'"
         "now' - last_data_time st' > UDP_TRANSFER_TIMEOUT"
      by blast
    have "udp_receive_loop st (e # pre) = Receiving st'"
      using udp_loop_append [of st "[e]" pre] Receiving p(2) by simp
    then have "e # es = (e # pre) @ (SocketTimeout, now') # post
           \<and> udp_receive_loop st (e # pre) = Receiving st'
           \<and> now' - last_data_time st' > UDP_TRANSFER_TIMEOUT"
      using p by simp
    then show ?thesis by blast
  next
    case LoopRaised
    then show ?thesis using step Cons.prems by simp
  qed
qed

lemma udp_loop_break_iff:
  "udp_receive_loop st es = Break st'
     \<longleftrightarrow> (\<exists>pre now post. es = pre @ (SocketTimeout, now) # post
           \<and> udp_receive_loop st pre = Receiving st'
           \<and> now - last_data_time st' > UDP_TRANSFER_TIMEOUT)"
proof
  assume "udp_receive_loop st es = Break st'"
  then show "\<exists>pre now post. es = pre @ (SocketTimeout, now) # post
           \<and> udp_receive_loop st pre = Receiving st'
           \<and> now - last_data_time st' > UDP_TRANSFER_TIMEOUT"
    by (rule udp_loop_break_split)
next
  assume "\<exists>pre now post. es = pre @ (SocketTimeout, now) # post
           \<and> udp_receive_loop st pre = Receiving st'
           \<and> now - last_data_time st' > UDP_TRANSFER_TIMEOUT"
  then obtain pre now post where
    p: "es = pre @ (SocketTimeout, now) # post" "udp_receive_loop st pre = Receiving st'"
       "now - last_data_time st' > UDP_TRANSFER_TIMEOUT"
    by blast
  show "udp_receive_loop st es = Break st'"
    using p by (simp add: udp_loop_append)
qed

lemma udp_loop_invalid_datagram:
  assumes "length data < PAYLOAD_SIZE
           \<or> (\<exists>mc mt t c. unpack_payload (take PAYLOAD_SIZE data) = Inr (mc, mt, t, c)
                \<and> (mc \<noteq> MAGIC_COOKIE \<or> mt \<noteq> MSG_TYPE_PAYLOAD))"
  shows "udp_receive_loop st ((Datagram data sender, now) # rest) = udp_receive_loop st rest"
  using assms by auto


text \<open>
  Claim C8, as stated. The request is sent at time 0 and no valid segment ever arrives.
  With no datagram at all the first receive timeout (at 1.1) ends the loop. With
  too-short datagrams arriving at 0.9, 1.8 and 2.7 no \<open>recvfrom\<close> times out, and the
  loop is still receiving at 2.7, more than the timeout after the last valid receipt;
  with two of them, the loop ends at 2.8 instead of 1.1. Invalid datagrams do not reset
  \<open>last_data_time\<close>, yet they extend the transfer.
\<close>

theorem invalid_datagrams_extend_transfer_counterexample:
  "udp_receive_loop
      \<lparr>total_bytes = 0, total_segments = 0, segments_received = 0, last_data_time = 0\<rparr>
      [(SocketTimeout, 1.1)]
     = Break \<lparr>total_bytes = 0, total_segments = 0, segments_received = 0, last_data_time = 0\<rparr>
   \<and> udp_receive_loop
      \<lparr>total_bytes = 0, total_segments = 0, segments_received = 0, last_data_time = 0\<rparr>
      [(Datagram [] (''10.0.0.9'', 5000), 0.9), (Datagram [] (''10.0.0.9'', 5000), 1.8),
       (Datagram [] (''10.0.0.9'', 5000), 2.7)]
     = Receiving
         \<lparr>total_bytes = 0, total_segments = 0, segments_received = 0, last_data_time = 0\<rparr>
   \<and> 2.7 - last_data_time
        \<lparr>total_bytes = 0, total_segments = 0, segments_received = 0, last_data_time = 0\<rparr>
       > UDP_TRANSFER_TIMEOUT
   \<and> udp_receive_loop
      \<lparr>total_bytes = 0, total_segments = 0, segments_received = 0, last_data_time = 0\<rparr>
      [(Datagram [] (''10.0.0.9'', 5000), 0.9), (Datagram [] (''10.0.0.9'', 5000), 1.8),
       (SocketTimeout, 2.8)]
     = Break \<lparr>total_bytes = 0, total_segments = 0, segments_received = 0, last_data_time = 0\<rparr>"
  by (simp add: PAYLOAD_SIZE_def UDP_TRANSFER_TIMEOUT_def)

text \<open>
  Claim C8, amended. The client's UDP receive loop terminates exactly at the first
  receive timeout (\<open>socket.timeout\<close>: one second without a datagram of any kind) at
  which the time since the last valid PayloadSegment receipt (or since the request was
  sent) exceeds the 1-second timeout; invalid or too-short datagrams are discarded
  without changing the counters or \<open>last_data_time\<close>.
\<close>

theorem udp_loop_quiet_period:
  "(udp_receive_loop st es = Break st'
      \<longleftrightarrow> (\<exists>pre now post. es = pre @ (SocketTimeout, now) # post
            \<and> udp_receive_loop st pre = Receiving st'
            \<and> now - last_data_time st' > UDP_TRANSFER_TIMEOUT))
   \<and> udp_receive_loop st ((SocketTimeout, now) # rest)
       = (if now - last_data_time st > UDP_TRANSFER_TIMEOUT then Break st
          else udp_receive_loop st rest)
   \<and> (length data < PAYLOAD_SIZE
        \<or> (\<exists>mc mt t c. unpack_payload (take PAYLOAD_SIZE data) = Inr (mc, mt, t, c)
             \<and> (mc \<noteq> MAGIC_COOKIE \<or> mt \<noteq> MSG_TYPE_PAYLOAD))
       \<longrightarrow> udp_receive_loop st ((Datagram data sender, now) # rest) = udp_receive_loop st rest)"
proof (intro conjI impI)
  show "udp_receive_loop st es = Break st'
      \<longleftrightarrow> (\<exists>pre now post. es = pre @ (SocketTimeout, now) # post
            \<and> udp_receive_loop st pre = Receiving st'
            \<and> now - last_data_time st' > UDP_TRANSFER_TIMEOUT)"
    by (rule udp_loop_break_iff)
  show "udp_receive_loop st ((SocketTimeout, now) # rest)
       = (if now - last_data_time st > UDP_TRANSFER_TIMEOUT then Break st
          else udp_receive_loop st rest)"
    by simp
  assume "length data < PAYLOAD_SIZE
        \<or> (\<exists>mc mt t c. unpack_payload (take PAYLOAD_SIZE data) = Inr (mc, mt, t, c)
             \<and> (mc \<noteq> MAGIC_COOKIE \<or> mt \<noteq> MSG_TYPE_PAYLOAD))"
  then show "udp_receive_loop st ((Datagram data sender, now) # rest) = udp_receive_loop st rest"
    by (rule udp_loop_invalid_datagram)
qed

theorem udp_loop_quiet_period_witness:
  "length ([] :: byte list) < PAYLOAD_SIZE
   \<and> udp_receive_loop
        \<lparr>total_bytes = 0, total_segments = 0, segments_received = 0, last_data_time = 0\<rparr>
        [(Datagram [] (''10.0.0.9'', 5000), 0.5), (SocketTimeout, 1.5)]
       = Break \<lparr>total_bytes = 0, total_segments = 0, segments_received = 0, last_data_time = 0\<rparr>
   \<and> (\<exists>pre now post.
          [(Datagram [] (''10.0.0.9'', 5000), 0.5), (SocketTimeout, 1.5)]
            = pre @ (SocketTimeout, now) # post
          \<and> udp_receive_loop
               \<lparr>total_bytes = 0, total_segments = 0, segments_received = 0, last_data_time = 0\<rparr>
               pre
              = Receiving
                  \<lparr>total_bytes = 0, total_segments = 0, segments_received = 0,
                   last_data_time = 0\<rparr>
          \<and> now - last_data_time
                \<lparr>total_bytes = 0, total_segments = 0, segments_received = 0, last_data_time = 0\<rparr>
              > UDP_TRANSFER_TIMEOUT)"
  using udp_loop_quiet_period
    [of "\<lparr>total_bytes = 0, total_segments = 0, segments_received = 0, last_data_time = 0\<rparr>"
        "[(Datagram [] (''10.0.0.9'', 5000), 0.5), (SocketTimeout, 1.5)]"
        "\<lparr>total_bytes = 0, total_segments = 0, segments_received = 0, last_data_time = 0\<rparr>"
        "1.5" "[]" "[]" "(''10.0.0.9'', 5000)"]
  by (simp add: PAYLOAD_SIZE_def UDP_TRANSFER_TIMEOUT_def)


lemma udp_loop_two_copies:
  assumes "pack_payload MAGIC_COOKIE MSG_TYPE_PAYLOAD total_seg current_seg = Inr hdr"
    and "now3 - now2 > UDP_TRANSFER_TIMEOUT"
  shows "udp_receive_loop st
           [(Datagram (hdr @ payload) sender, now1), (Datagram (hdr @ payload) sender, now2),
            (SocketTimeout, now3)]
         = Break \<lparr>total_bytes = total_bytes st + 2 * int (length payload),
                  total_segments = total_seg,
                  segments_received = segments_received st + 2,
                  last_data_time = now2\<rparr>"
proof -
  let ?d = "Datagram (hdr @ payload) sender"
  let ?st1 = "\<lparr>total_bytes = total_bytes st + int (length payload),
                total_segments = total_seg,
                segments_received = segments_received st + 1,
                last_data_time = now1\<rparr>"
  let ?st2 = "\<lparr>total_bytes = total_bytes ?st1 + int (length payload),
                total_segments = total_seg,
                segments_received = segments_received ?st1 + 1,
                last_data_time = now2\<rparr>"
  have "udp_receive_loop st [(?d, now1), (?d, now2), (SocketTimeout, now3)]
          = udp_receive_loop ?st1 [(?d, now2), (SocketTimeout, now3)]"
    by (rule udp_loop_valid_segment [OF assms(1)])
  also have "\<dots> = udp_receive_loop ?st2 [(SocketTimeout, now3)]"
    by (rule udp_loop_valid_segment [OF assms(1)])
  also have "\<dots> = Break ?st2"
    using assms(2) by simp
  finally show ?thesis by simp
qed

lemma success_rate_over_100:
  "\<exists>events rep. client_handle_udp_transfer 1 0 0 events 2 = Some rep \<and> 100 < success_rate rep"
proof -
  obtain hdr where hdr: "pack_payload MAGIC_COOKIE MSG_TYPE_PAYLOAD 1 1 = Inr hdr"
    by (simp add: pack_payload_def fits_def MAGIC_COOKIE_def MSG_TYPE_PAYLOAD_def)
  obtain req where req: "pack_request MAGIC_COOKIE MSG_TYPE_REQUEST 1 = Inr req"
    by (simp add: pack_request_def fits_def MAGIC_COOKIE_def MSG_TYPE_REQUEST_def)
  let ?d = "Datagram (hdr @ [0x59]) (''10.0.0.2'', 2000)"
  let ?events = "[(?d, 0.1), (?d, 0.2), (SocketTimeout, 1.3)]"
  have "udp_receive_loop
          \<lparr>total_bytes = 0, total_segments = 0, segments_received = 0, last_data_time = 0\<rparr>
          ?events
        = Break \<lparr>total_bytes = 2, total_segments = 1, segments_received = 2,
                 last_data_time = 0.2\<rparr>"
    using udp_loop_two_copies [OF hdr, of "1.3" "0.2" _ "[0x59]" "(''10.0.0.2'', 2000)" "0.1"]
    by (simp add: UDP_TRANSFER_TIMEOUT_def)
  then have "client_handle_udp_transfer 1 0 0 ?events 2
        = Some \<lparr>duration = transfer_duration 0 2,
                 speed = real_of_int 2 * 8 / transfer_duration 0 2,
                 success_rate = 200\<rparr>"
    using req by (simp add: client_handle_udp_transfer_def udp_report_of_Inr)
  moreover have "100 < success_rate \<lparr>duration = transfer_duration 0 2,
                 speed = real_of_int 2 * 8 / transfer_duration 0 2,
                 success_rate = 200\<rparr>"
    by simp
  ultimately show ?thesis by blast
qed

text \<open>
  Claim C10. The client's UDP receiver adds one to \<open>segments_received\<close> for every valid
  PayloadSegment datagram, whatever its \<open>current_seg\<close> and whatever came before, and
  takes \<open>total_segments\<close> from the segment received last; the same valid segment
  received twice counts twice; and some run of the client, in which a valid segment
  arrives twice, reports a success rate above 100.
\<close>

theorem duplicates_counted:
  assumes "pack_payload MAGIC_COOKIE MSG_TYPE_PAYLOAD total_seg current_seg = Inr hdr"
    and "now3 - now2 > UDP_TRANSFER_TIMEOUT"
  shows "udp_receive_loop st ((Datagram (hdr @ payload) sender, now) # rest)
           = udp_receive_loop
               \<lparr>total_bytes = total_bytes st + int (length payload),
                total_segments = total_seg,
                segments_received = segments_received st + 1,
                last_data_time = now\<rparr> rest
       \<and> udp_receive_loop st
           [(Datagram (hdr @ payload) sender, now1), (Datagram (hdr @ payload) sender, now2),
            (SocketTimeout, now3)]
         = Break \<lparr>total_bytes = total_bytes st + 2 * int (length payload),
                  total_segments = total_seg,
                  segments_received = segments_received st + 2,
                  last_data_time = now2\<rparr>
       \<and> (\<exists>events rep. client_handle_udp_transfer 1 0 0 events 2 = Some rep
             \<and> 100 < success_rate rep)"
  using udp_loop_valid_segment [OF assms(1)] udp_loop_two_copies [OF assms]
    success_rate_over_100
  by (intro conjI)

theorem duplicates_counted_witness:
  "udp_receive_loop
     \<lparr>total_bytes = 0, total_segments = 0, segments_received = 0, last_data_time = 0\<rparr>
     [(Datagram (projr (pack_payload MAGIC_COOKIE MSG_TYPE_PAYLOAD 1 1) @ [0x59])
         (''10.0.0.2'', 2000), 0.1),
      (Datagram (projr (pack_payload MAGIC_COOKIE MSG_TYPE_PAYLOAD 1 1) @ [0x59])
         (''10.0.0.2'', 2000), 0.2),
      (SocketTimeout, 1.3)]
   = Break \<lparr>total_bytes = 2, total_segments = 1, segments_received = 2, last_data_time = 0.2\<rparr>
   \<and> success_rate_of 2 1 = Inr 200"
  using duplicates_counted
    [of 1 1 "projr (pack_payload MAGIC_COOKIE MSG_TYPE_PAYLOAD 1 1)" "1.3" "0.2"
        "\<lparr>total_bytes = 0, total_segments = 0, segments_received = 0, last_data_time = 0\<rparr>"
        "[0x59]" "(''10.0.0.2'', 2000)" "0.1" "[]" "0.1"]
  by (simp add: pack_payload_def fits_def MAGIC_COOKIE_def MSG_TYPE_PAYLOAD_def
      UDP_TRANSFER_TIMEOUT_def success_rate_of_def py_truediv_def del: be_bytes.simps)

section \<open>Client: the discovery attempt\<close>

lemma listen_append:
  "listen_for_offer start (pre @ es)
     = (case listen_for_offer start pre of None \<Rightarrow> listen_for_offer start es
        | Some x \<Rightarrow> Some x)"
proof (induction pre)
  case Nil
  then show ?case by simp
next
  case (Cons e pre)
  obtain now r where e: "e = (now, r)" by (cases e)
  show ?case
    using Cons.IH unfolding e
    by (cases r) (simp_all split: sum.splits prod.splits)
qed

lemma listen_split:
  "listen_for_offer start es = Some x
     \<Longrightarrow> \<exists>pre now r post. es = pre @ (now, r) # post
           \<and> listen_for_offer start pre = None
           \<and> listen_for_offer start [(now, r)] = Some x"
proof (induction es)
  case Nil
  then show ?case by simp
next
  case (Cons e es)
  obtain now r where e: "e = (now, r)" by (cases e)
  have step: "listen_for_offer start (e # es)
     = (case listen_for_offer start [e] of None \<Rightarrow> listen_for_offer start es
        | Some y \<Rightarrow> Some y)"
    using listen_append [of start "[e]" es] by simp
  show ?case
  proof (cases "listen_for_offer start [e]")
    case None
    then have "listen_for_offer start es = Some x" using step Cons.prems by simp
    from Cons.IH [OF this] obtain pre now' r' post where
      p: "es = pre @ (now', r') # post" "listen_for_offer start pre = None"
         "listen_for_offer start [(now', r')] = Some x"
      by blast
    have "listen_for_offer start (e # pre) = None"
      using listen_append [of start "[e]" pre] None p(2) by simp
    then have "e # es = (e # pre) @ (now', r') # post
           \<and> listen_for_offer start (e # pre) = None
           \<and> listen_for_offer start [(now', r')] = Some x"
      using p by simp
    then show ?thesis by blast
  next
    case (Some y)
    then have "y = x" using step Cons.prems by simp
    then have "e # es = [] @ (now, r) # es
           \<and> listen_for_offer start [] = None
           \<and> listen_for_offer start [(now, r)] = Some x"
      using Some e by simp
    then show ?thesis by blast
  qed
qed

lemma listen_single_deadline:
  "listen_for_offer start [(now, r)] = Some ReturnNoneDeadline \<longleftrightarrow> now - start > 10"
  by (cases r) (auto split: sum.splits prod.splits)

lemma listen_single_error:
  "listen_for_offer start [(now, r)] = Some ReturnNoneError
     \<longleftrightarrow> now - start \<le> 10
         \<and> (r = RaisedException \<or> (\<exists>data a. r = Datagram data a \<and> length data > OFFER_SIZE))"
  by (cases r) (auto simp: unpack_offer_def split: sum.splits prod.splits if_splits)

lemma listen_single_offer:
  "listen_for_offer start [(now, r)] = Some (ReturnOffer ip u t)
     \<longleftrightarrow> now - start \<le> 10
         \<and> (\<exists>data a. r = Datagram data a
               \<and> unpack_offer data = Inr (MAGIC_COOKIE, MSG_TYPE_OFFER, u, t) \<and> ip = fst a)"
  by (cases r) (auto simp: unpack_offer_def split: sum.splits prod.splits if_splits)

lemma listen_ignores:
  assumes "now - start \<le> 10"
    and "length data < OFFER_SIZE
         \<or> (\<exists>mc mt u t. unpack_offer data = Inr (mc, mt, u, t)
               \<and> (mc \<noteq> MAGIC_COOKIE \<or> mt \<noteq> MSG_TYPE_OFFER))"
  shows "listen_for_offer start ((now, Datagram data a) # rest) = listen_for_offer start rest"
  using assms by (auto simp: unpack_offer_def split: if_splits)

text \<open>
  Claim C2, as stated, lets the attempt fail only when the deadline has elapsed. The
  handler \<open>except Exception\<close> of \<open>listen_for_offer\<close> returns \<open>None\<close> at once: when
  \<open>recvfrom\<close> raises at time 0 of an attempt started at time 0, the attempt has failed
  and no deadline has elapsed.
\<close>

theorem discovery_socket_error_counterexample:
  "listen_for_offer 0 [(0, RaisedException)] = Some ReturnNoneError
   \<and> \<not> (0 - 0 > (10 :: real))"
  by simp

text \<open>
  Claim C2, amended. In an attempt that receives no datagram longer than the 9 bytes
  of an Offer: a datagram that fails validation (shorter than 9 bytes, or of 9 bytes
  with another cookie or another type) received before the deadline is ignored, and
  the loop continues with what follows; the attempt returns failure exactly when some
  iteration starts more than 10 seconds after the start, no Offer having been
  accepted before, or when \<open>recvfrom\<close> raises an exception other than a timeout; and
  it returns the sender's host and the two advertised ports exactly at the first
  datagram that is a valid Offer, with no further iteration.
\<close>

theorem discovery_attempt:
  assumes "list_all (\<lambda>(now, r). case r of Datagram data a \<Rightarrow> length data \<le> OFFER_SIZE
                                    | _ \<Rightarrow> True) es"
  shows "(now \<le> start + 10
           \<and> (length data < OFFER_SIZE
               \<or> (\<exists>mc mt u t. unpack_offer data = Inr (mc, mt, u, t)
                     \<and> (mc \<noteq> MAGIC_COOKIE \<or> mt \<noteq> MSG_TYPE_OFFER)))
          \<longrightarrow> listen_for_offer start ((now, Datagram data a) # rest)
                = listen_for_offer start rest)
       \<and> (listen_for_offer start es = Some ReturnNoneDeadline
            \<longleftrightarrow> (\<exists>pre now r post. es = pre @ (now, r) # post
                  \<and> listen_for_offer start pre = None \<and> now - start > 10))
       \<and> (listen_for_offer start es = Some ReturnNoneError
            \<longleftrightarrow> (\<exists>pre now post. es = pre @ (now, RaisedException) # post
                  \<and> listen_for_offer start pre = None \<and> now - start \<le> 10))
       \<and> (listen_for_offer start es = Some (ReturnOffer ip udp_port tcp_port)
            \<longleftrightarrow> (\<exists>pre now data a post. es = pre @ (now, Datagram data a) # post
                  \<and> listen_for_offer start pre = None \<and> now - start \<le> 10
                  \<and> unpack_offer data = Inr (MAGIC_COOKIE, MSG_TYPE_OFFER, udp_port, tcp_port)
                  \<and> ip = fst a))"
proof (intro conjI)
  show "now \<le> start + 10
           \<and> (length data < OFFER_SIZE
               \<or> (\<exists>mc mt u t. unpack_offer data = Inr (mc, mt, u, t)
                     \<and> (mc \<noteq> MAGIC_COOKIE \<or> mt \<noteq> MSG_TYPE_OFFER)))
          \<longrightarrow> listen_for_offer start ((now, Datagram data a) # rest)
                = listen_for_offer start rest"
    using listen_ignores [of now start data a rest] by auto
next
  show "listen_for_offer start es = Some ReturnNoneDeadline
            \<longleftrightarrow> (\<exists>pre now r post. es = pre @ (now, r) # post
                  \<and> listen_for_offer start pre = None \<and> now - start > 10)"
  proof
    assume "listen_for_offer start es = Some ReturnNoneDeadline"
    from listen_split [OF this] show "\<exists>pre now r post. es = pre @ (now, r) # post
                  \<and> listen_for_offer start pre = None \<and> now - start > 10"
      using listen_single_deadline by blast
  next
    assume "\<exists>pre now r post. es = pre @ (now, r) # post
                  \<and> listen_for_offer start pre = None \<and> now - start > 10"
    then obtain pre now r post where "es = pre @ (now, r) # post"
      "listen_for_offer start pre = None" "now - start > 10" by blast
    then show "listen_for_offer start es = Some ReturnNoneDeadline"
      by (simp add: listen_append)
  qed
next
  show "listen_for_offer start es = Some ReturnNoneError
            \<longleftrightarrow> (\<exists>pre now post. es = pre @ (now, RaisedException) # post
                  \<and> listen_for_offer start pre = None \<and> now - start \<le> 10)"
  proof
    assume "listen_for_offer start es = Some ReturnNoneError"
    from listen_split [OF this] obtain pre now r post where
      p: "es = pre @ (now, r) # post" "listen_for_offer start pre = None"
         "listen_for_offer start [(now, r)] = Some ReturnNoneError"
      by blast
    have le: "now - start \<le> 10"
      and r: "r = RaisedException \<or> (\<exists>data a. r = Datagram data a \<and> length data > OFFER_SIZE)"
      using p(3) listen_single_error [of start now r] by blast+
    have "(now, r) \<in> set es" using p(1) by simp
    then have "case r of Datagram data a \<Rightarrow> length data \<le> OFFER_SIZE | _ \<Rightarrow> True"
      using assms by (auto simp: list_all_iff)
    with r have "r = RaisedException" by auto
    with p le show "\<exists>pre now post. es = pre @ (now, RaisedException) # post
                  \<and> listen_for_offer start pre = None \<and> now - start \<le> 10" by blast
  next
    assume "\<exists>pre now post. es = pre @ (now, RaisedException) # post
                  \<and> listen_for_offer start pre = None \<and> now - start \<le> 10"
    then obtain pre now post where "es = pre @ (now, RaisedException) # post"
      "listen_for_offer start pre = None" "now - start \<le> 10" by blast
    then show "listen_for_offer start es = Some ReturnNoneError"
      by (simp add: listen_append)
  qed
next
  show "listen_for_offer start es = Some (ReturnOffer ip udp_port tcp_port)
            \<longleftrightarrow> (\<exists>pre now data a post. es = pre @ (now, Datagram data a) # post
                  \<and> listen_for_offer start pre = None \<and> now - start \<le> 10
                  \<and> unpack_offer data = Inr (MAGIC_COOKIE, MSG_TYPE_OFFER, udp_port, tcp_port)
                  \<and> ip = fst a)"
  proof
    assume "listen_for_offer start es = Some (ReturnOffer ip udp_port tcp_port)"
    from listen_split [OF this] obtain pre now r post where
      p: "es = pre @ (now, r) # post" "listen_for_offer start pre = None"
         "listen_for_offer start [(now, r)] = Some (ReturnOffer ip udp_port tcp_port)"
      by blast
    from p(3) listen_single_offer [of start now r ip udp_port tcp_port]
    obtain data a where "now - start \<le> 10" "r = Datagram data a"
      "unpack_offer data = Inr (MAGIC_COOKIE, MSG_TYPE_OFFER, udp_port, tcp_port)" "ip = fst a"
      by blast
    with p show "\<exists>pre now data a post. es = pre @ (now, Datagram data a) # post
                  \<and> listen_for_offer start pre = None \<and> now - start \<le> 10
                  \<and> unpack_offer data = Inr (MAGIC_COOKIE, MSG_TYPE_OFFER, udp_port, tcp_port)
                  \<and> ip = fst a" by blast
  next
    assume "\<exists>pre now data a post. es = pre @ (now, Datagram data a) # post
                  \<and> listen_for_offer start pre = None \<and> now - start \<le> 10
                  \<and> unpack_offer data = Inr (MAGIC_COOKIE, MSG_TYPE_OFFER, udp_port, tcp_port)
                  \<and> ip = fst a"
    then obtain pre now data a post where
      q: "es = pre @ (now, Datagram data a) # post" "listen_for_offer start pre = None"
         "now - start \<le> 10"
         "unpack_offer data = Inr (MAGIC_COOKIE, MSG_TYPE_OFFER, udp_port, tcp_port)"
         "ip = fst a" by blast
    have "listen_for_offer start [(now, Datagram data a)]
            = Some (ReturnOffer ip udp_port tcp_port)"
      using listen_single_offer [of start now "Datagram data a" ip udp_port tcp_port] q
      by blast
    then have "listen_for_offer start ((now, Datagram data a) # post)
            = Some (ReturnOffer ip udp_port tcp_port)"
      using listen_append [of start "[(now, Datagram data a)]" post] by simp
    then show "listen_for_offer start es = Some (ReturnOffer ip udp_port tcp_port)"
      using q(1,2) by (simp add: listen_append)
  qed
qed

theorem discovery_attempt_witness:
  "list_all (\<lambda>(now, r). case r of Datagram data a \<Rightarrow> length data \<le> OFFER_SIZE | _ \<Rightarrow> True)
     [(0, Datagram [] (''10.0.0.1'', 13117)), (1, SocketTimeout),
      (2, Datagram [0xab, 0xcd, 0xdc, 0xba, 0x02, 0x33, 0x3d, 0x1f, 0x90] (''10.0.0.1'', 13117)),
      (3, RaisedException)]
   \<and> listen_for_offer 0
       [(0, Datagram [] (''10.0.0.1'', 13117)), (1, SocketTimeout),
        (2, Datagram [0xab, 0xcd, 0xdc, 0xba, 0x02, 0x33, 0x3d, 0x1f, 0x90] (''10.0.0.1'', 13117)),
        (3, RaisedException)]
      = Some (ReturnOffer ''10.0.0.1'' 13117 8080)
   \<and> (\<exists>pre now data a post.
         [(0, Datagram [] (''10.0.0.1'', 13117)), (1, SocketTimeout),
          (2, Datagram [0xab, 0xcd, 0xdc, 0xba, 0x02, 0x33, 0x3d, 0x1f, 0x90] (''10.0.0.1'', 13117)),
          (3, RaisedException)] = pre @ (now, Datagram data a) # post
         \<and> listen_for_offer 0 pre = None \<and> now - 0 \<le> 10
         \<and> unpack_offer data = Inr (MAGIC_COOKIE, MSG_TYPE_OFFER, 13117, 8080)
         \<and> ''10.0.0.1'' = fst a)"
  using discovery_attempt
    [where es = "[(0, Datagram [] (''10.0.0.1'', 13117)), (1, SocketTimeout),
          (2, Datagram [0xab, 0xcd, 0xdc, 0xba, 0x02, 0x33, 0x3d, 0x1f, 0x90] (''10.0.0.1'', 13117)),
          (3, RaisedException)]"
       and start = 0 and now = 0 and data = "[]" and a = "(''10.0.0.1'', 13117)"
       and rest = "[]" and ip = "''10.0.0.1''" and udp_port = 13117 and tcp_port = 8080]
  by (simp add: unpack_offer_def OFFER_SIZE_def be_int_def MAGIC_COOKIE_def MSG_TYPE_OFFER_def)

section \<open>The cookie as a filter\<close>

lemma bad_cookie_never_accepted:
  assumes "be_int (take 4 data) \<noteq> MAGIC_COOKIE"
  shows "listen_udp_requests_step (Datagram data a) \<noteq> SpawnTransfer a' file_size"
    and "listen_for_offer start [(now, Datagram data a)] \<noteq> Some (ReturnOffer ip u t)"
    and "udp_receive_loop st ((Datagram data a, now) # rest) = udp_receive_loop st rest"
  using assms
  by (auto simp: listen_udp_requests_step_def unpack_request_def unpack_offer_def
      unpack_payload_def PAYLOAD_SIZE_def min_def split: if_splits)

lemma bad_cookie_exact_size_discarded:
  assumes "be_int (take 4 data) \<noteq> MAGIC_COOKIE"
  shows "length data \<le> REQUEST_SIZE \<Longrightarrow> listen_udp_requests_step (Datagram data a) = NoAction"
    and "length data \<le> OFFER_SIZE \<Longrightarrow> now - start \<le> 10
           \<Longrightarrow> listen_for_offer start ((now, Datagram data a) # es) = listen_for_offer start es"
  using assms
  by (auto simp: listen_udp_requests_step_def unpack_request_def unpack_offer_def
      split: if_splits)

text \<open>
  Claim C3. A datagram with another cookie starts no transfer, yields no Offer and
  changes no counter (\<open>bad_cookie_never_accepted\<close>), and it is dropped without a
  word when it is no longer than the message expected
  (\<open>bad_cookie_exact_size_discarded\<close>). A longer one is not: the server and the
  discovery loop test \<open>len(data) >= struct.calcsize(...)\<close> and then hand the whole
  buffer to \<open>struct.unpack\<close>, which raises \<open>struct.error\<close> unless the length is exact.
  The server prints \<open>UDP request error\<close> for a 14-byte datagram with the cookie
  \<open>00 00 00 00\<close>, whose first 13 bytes alone it drops silently; the client's discovery
  gives up (\<open>return None\<close>) on such a datagram of 10 bytes, although a valid Offer
  follows. The client's transfer loop unpacks \<open>data[:21]\<close> and drops the long datagram
  silently.
\<close>

theorem oversized_bad_cookie_not_discarded:
  "be_int (take 4 [0, 0, 0, 0, 0x03, 0, 0, 0, 0, 0, 0, 0x13, 0x88, 0]) \<noteq> MAGIC_COOKIE
   \<and> listen_udp_requests_step
        (Datagram [0, 0, 0, 0, 0x03, 0, 0, 0, 0, 0, 0, 0x13, 0x88, 0] (''10.0.0.7'', 40000))
       = LogRequestError
   \<and> listen_udp_requests_step
        (Datagram [0, 0, 0, 0, 0x03, 0, 0, 0, 0, 0, 0, 0x13, 0x88] (''10.0.0.7'', 40000))
       = NoAction
   \<and> be_int (take 4 [0, 0, 0, 0, 0x02, 0x33, 0x3d, 0x1f, 0x90, 0]) \<noteq> MAGIC_COOKIE
   \<and> listen_for_offer 0
        [(0, Datagram [0, 0, 0, 0, 0x02, 0x33, 0x3d, 0x1f, 0x90, 0] (''10.0.0.7'', 40000)),
         (1, Datagram [0xab, 0xcd, 0xdc, 0xba, 0x02, 0x33, 0x3d, 0x1f, 0x90]
               (''10.0.0.1'', 13117))]
       = Some ReturnNoneError
   \<and> udp_receive_loop
        \<lparr>total_bytes = 0, total_segments = 0, segments_received = 0, last_data_time = 0\<rparr>
        [(Datagram [0, 0, 0, 0, 0x04, 0, 0, 0, 0, 0, 0, 0, 1, 0, 0, 0, 0, 0, 0, 0, 1, 0x59]
            (''10.0.0.7'', 40000), 0.5),
         (SocketTimeout, 1.5)]
       = Break \<lparr>total_bytes = 0, total_segments = 0, segments_received = 0,
                 last_data_time = 0\<rparr>"
  by (simp add: listen_udp_requests_step_def unpack_request_def unpack_offer_def
      unpack_payload_def REQUEST_SIZE_def OFFER_SIZE_def PAYLOAD_SIZE_def be_int_def
      MAGIC_COOKIE_def UDP_TRANSFER_TIMEOUT_def)

section \<open>Server: requests over TCP\<close>

lemma valid_utf8_ascii: "list_all (\<lambda>b. b < 0x80) bs \<Longrightarrow> valid_utf8 bs"
  by (induction bs) simp_all

lemma py_int_decode_examples:
  "py_int_decode [0x35, 0x30, 0x30, 0x30] = Inr 5000"
  "py_int_decode [0x31, 0x5F, 0x30, 0x30, 0x30] = Inr 1000"
  "py_int_decode [0x2D, 0x31] = Inr (- 1)"
  "py_int_decode [0x35, 0x78] = Inl ValueError"
  "py_int_decode [0x31, 0x5F, 0x5F, 0x30] = Inl ValueError"
  "py_int_decode [0x31, 0x5F] = Inl ValueError"
  "py_int_decode [] = Inl ValueError"
  "py_int_decode [0xFF] = Inl UnicodeDecodeError"
  "py_int_decode [0x35, 0xC3] = Inl UnicodeDecodeError"
  by (simp_all add: py_int_decode_def int_of_ascii_def strip_def is_space_def is_digit_def
      is_cont_def)

lemma endswith_newline_snoc [simp]: "endswith_newline (data @ [b]) \<longleftrightarrow> b = 0x0A"
  by (simp add: endswith_newline_def)

lemma read_request_line_bytes:
  "\<not> endswith_newline data \<Longrightarrow> 0x0A \<notin> set bs
     \<Longrightarrow> read_request_line data (map TcpByte bs @ rest) = read_request_line (data @ bs) rest"
proof (induction bs arbitrary: data)
  case Nil
  then show ?case by simp
next
  case (Cons b bs)
  have "read_request_line data (map TcpByte (b # bs) @ rest)
          = read_request_line (data @ [b]) (map TcpByte bs @ rest)"
    using Cons.prems(1) by simp
  also have "\<dots> = read_request_line ((data @ [b]) @ bs) rest"
    using Cons.prems(2) by (intro Cons.IH) auto
  finally show ?case by simp
qed

lemma no_newline_not_endswith: "0x0A \<notin> set bs \<Longrightarrow> \<not> endswith_newline bs"
  by (auto simp: endswith_newline_def dest: last_in_set)

lemma read_request_line_closed:
  assumes "0x0A \<notin> set bs"
  shows "read_request_line [] (map TcpByte bs @ TcpClosed # rest) = PeerClosed"
proof -
  have "read_request_line [] (map TcpByte bs @ TcpClosed # rest)
          = read_request_line ([] @ bs) (TcpClosed # rest)"
    using assms by (intro read_request_line_bytes) (simp_all add: endswith_newline_def)
  then show ?thesis using no_newline_not_endswith [OF assms] by simp
qed

lemma read_request_line_line:
  assumes "0x0A \<notin> set bs"
  shows "read_request_line [] (map TcpByte (bs @ [0x0A]) @ rest) = GotLine (bs @ [0x0A])"
proof -
  have "read_request_line [] (map TcpByte bs @ TcpByte 0x0A # rest)
          = read_request_line ([] @ bs) (TcpByte 0x0A # rest)"
    using assms by (intro read_request_line_bytes) (simp_all add: endswith_newline_def)
  then show ?thesis using no_newline_not_endswith [OF assms] by simp
qed

lemma listen_tcp_append:
  "listen_tcp py_int (xs @ ys) = listen_tcp py_int xs @ listen_tcp py_int ys"
  by (induction py_int xs rule: listen_tcp.induct) simp_all

lemma scenario_A_request:
  "map_option (\<lambda>r. (map length (writes r), printed r, sock_closed r))
     (handle_tcp_client py_int_decode
        \<lparr>incoming = map TcpByte [0x35, 0x30, 0x30, 0x30, 0x0A],
         sendall_ok = every_send_succeeds\<rparr>)
   = Some ([4096, 904], [Log_requested 5000], True)"
  by (simp add: handle_tcp_client_def py_int_decode_def int_of_ascii_def strip_def
      is_space_def is_digit_def send_tcp_data_def endswith_newline_def)

text \<open>
  Claim C9. When the peer closes the connection before a newline has arrived, the
  handler returns with nothing sent and nothing printed, the socket closed. When the
  line read does not parse, the handler prints one line (\<open>Invalid file size\<close> when
  \<open>int\<close> raises \<open>ValueError\<close>, \<open>TCP client error\<close> when the bytes do not decode), sends
  nothing and closes this socket. In both cases the handler returns, and the accept
  loop goes on: what it does with the connections accepted before and after is what
  it does without this one.
\<close>

theorem tcp_request_failures:
  "(0x0A \<notin> set bs \<longrightarrow>
      handle_tcp_client py_int
        \<lparr>incoming = map TcpByte bs @ TcpClosed # rest, sendall_ok = ok\<rparr>
      = Some \<lparr>writes = [], printed = [], sock_closed = True\<rparr>)
   \<and> (0x0A \<notin> set bs \<and> py_int (strip (bs @ [0x0A])) = Inl e \<longrightarrow>
      handle_tcp_client py_int
        \<lparr>incoming = map TcpByte (bs @ [0x0A]) @ rest, sendall_ok = ok\<rparr>
      = Some \<lparr>writes = [],
              printed = [if e = ValueError then Log_invalid_file_size
                         else Log_tcp_client_error],
              sock_closed = True\<rparr>)
   \<and> listen_tcp py_int (before @ Accepted client_sock # after)
       = listen_tcp py_int before @ handle_tcp_client py_int client_sock
           # listen_tcp py_int after
   \<and> listen_tcp py_int (before @ after) = listen_tcp py_int before @ listen_tcp py_int after"
proof -
  have closed: "0x0A \<notin> set bs \<longrightarrow>
      handle_tcp_client py_int
        \<lparr>incoming = map TcpByte bs @ TcpClosed # rest, sendall_ok = ok\<rparr>
      = Some \<lparr>writes = [], printed = [], sock_closed = True\<rparr>"
    by (simp add: handle_tcp_client_def read_request_line_closed del: read_request_line.simps)
  have invalid: "0x0A \<notin> set bs \<and> py_int (strip (bs @ [0x0A])) = Inl e \<longrightarrow>
      handle_tcp_client py_int
        \<lparr>incoming = map TcpByte (bs @ [0x0A]) @ rest, sendall_ok = ok\<rparr>
      = Some \<lparr>writes = [],
              printed = [if e = ValueError then Log_invalid_file_size
                         else Log_tcp_client_error],
              sock_closed = True\<rparr>"
    by (cases e)
      (simp_all add: handle_tcp_client_def read_request_line_line
        del: map_append read_request_line.simps)
  have loop: "listen_tcp py_int (before @ Accepted client_sock # after)
       = listen_tcp py_int before @ handle_tcp_client py_int client_sock
           # listen_tcp py_int after"
    by (simp add: listen_tcp_append)
  have others: "listen_tcp py_int (before @ after)
       = listen_tcp py_int before @ listen_tcp py_int after"
    by (rule listen_tcp_append)
  from closed invalid loop others show ?thesis by (intro conjI)
qed

theorem tcp_request_failures_witness:
  "0x0A \<notin> set [0x35, 0x78 :: byte]
   \<and> py_int_decode (strip ([0x35, 0x78] @ [0x0A])) = Inl ValueError
   \<and> handle_tcp_client py_int_decode
        \<lparr>incoming = map TcpByte [0x35, 0x78] @ TcpClosed # [],
         sendall_ok = every_send_succeeds\<rparr>
      = Some \<lparr>writes = [], printed = [], sock_closed = True\<rparr>
   \<and> handle_tcp_client py_int_decode
        \<lparr>incoming = map TcpByte ([0x35, 0x78] @ [0x0A]) @ [],
         sendall_ok = every_send_succeeds\<rparr>
      = Some \<lparr>writes = [], printed = [Log_invalid_file_size], sock_closed = True\<rparr>"
proof -
  have no_newline: "0x0A \<notin> set [0x35, 0x78 :: byte]"
    by simp
  have fails: "py_int_decode (strip ([0x35, 0x78] @ [0x0A])) = Inl ValueError"
    by (simp add: py_int_decode_def int_of_ascii_def strip_def is_space_def is_digit_def)
  from tcp_request_failures
    [of "[0x35, 0x78]" py_int_decode "[]" every_send_succeeds ValueError]
    no_newline fails
  show ?thesis by simp
qed

end
